theory Spec2Isabelle
  imports Complex_Main "HOL-Library.Sublist" "HOL-Library.AList"
begin

section \<open>JavaScript values as the plugin reads them\<close>

text \<open>
  The plugin (\<^verbatim>\<open>.opencode/plugins/credit-switcher.js\<close>) receives dynamically typed
  payloads from its host: the event, and the response of every host API call. They are
  embedded as trees. Functions, getters, cyclic structures and BigInt do not occur in a
  tree; the numbers a payload carries are the integers (status codes and millisecond
  timestamps); strings are ASCII, so that \<^verbatim>\<open>toLowerCase\<close> only moves the letters A to
  Z. An object is the list of its properties in insertion order; a property is read at
  its first binding.
\<close>

datatype jsv =
    JUndef
  | JNull
  | JBool bool
  | JNum int
  | JStr string
  | JArr "jsv list"
  | JObj "(string \<times> jsv) list"

text \<open>Truthiness, as \<^verbatim>\<open>if (v)\<close>, \<^verbatim>\<open>!v\<close>, \<^verbatim>\<open>a || b\<close> and \<^verbatim>\<open>a && b\<close> test it.\<close>

fun truthy :: "jsv \<Rightarrow> bool" where
  "truthy JUndef = False"
| "truthy JNull = False"
| "truthy (JBool b) = b"
| "truthy (JNum n) = (n \<noteq> 0)"
| "truthy (JStr s) = (s \<noteq> [])"
| "truthy (JArr xs) = True"
| "truthy (JObj fs) = True"

text \<open>\<^verbatim>\<open>a || b\<close> and \<^verbatim>\<open>a ?? b\<close> on values.\<close>

definition js_or :: "jsv \<Rightarrow> jsv \<Rightarrow> jsv" where
  "js_or a b = (if truthy a then a else b)"

fun nullish :: "jsv \<Rightarrow> bool" where
  "nullish JUndef = True"
| "nullish JNull = True"
| "nullish v = False"

definition js_coalesce :: "jsv \<Rightarrow> jsv \<Rightarrow> jsv" where
  "js_coalesce a b = (if nullish a then b else a)"

text \<open>
  \<^verbatim>\<open>v?.k\<close>: the property \<open>k\<close> of an object, undefined when it is absent and when
  \<open>v\<close> is null, undefined or a primitive. The plugin reads no property that a string, a
  number or an array carries by itself (\<^verbatim>\<open>length\<close> is modelled where it is read).
\<close>

fun js_get :: "jsv \<Rightarrow> string \<Rightarrow> jsv" where
  "js_get (JObj fs) k = (case map_of fs k of Some v \<Rightarrow> v | None \<Rightarrow> JUndef)"
| "js_get v k = JUndef"

fun js_path :: "jsv \<Rightarrow> string list \<Rightarrow> jsv" where
  "js_path v [] = v"
| "js_path v (k # ks) = js_path (js_get v k) ks"

text \<open>
  \<^verbatim>\<open>a === b\<close>. Primitives compare by value. Two objects (or arrays) are equal only when
  they are the same reference; every comparison in the plugin has a freshly parsed string
  on one side, so an object operand makes it false.
\<close>

fun strict_eq :: "jsv \<Rightarrow> jsv \<Rightarrow> bool" where
  "strict_eq JUndef JUndef = True"
| "strict_eq JNull JNull = True"
| "strict_eq (JBool a) (JBool b) = (a = b)"
| "strict_eq (JNum a) (JNum b) = (a = b)"
| "strict_eq (JStr a) (JStr b) = (a = b)"
| "strict_eq a b = False"

subsection \<open>Strings\<close>

definition lower_char :: "char \<Rightarrow> char" where
  "lower_char c =
     (case map_of (zip ''ABCDEFGHIJKLMNOPQRSTUVWXYZ'' ''abcdefghijklmnopqrstuvwxyz'') c of
        Some d \<Rightarrow> d
      | None \<Rightarrow> c)"

definition toLowerCase :: "string \<Rightarrow> string" where
  "toLowerCase s = map lower_char s"

text \<open>White space of \<^verbatim>\<open>String.prototype.trim\<close> within ASCII: TAB, LF, VT, FF, CR, SP.\<close>

definition is_space :: "char \<Rightarrow> bool" where
  "is_space c = (c \<in> set [CHR 0x09, CHR 0x0A, CHR 0x0B, CHR 0x0C, CHR 0x0D, CHR '' ''])"

definition trim :: "string \<Rightarrow> string" where
  "trim s = rev (dropWhile is_space (rev (dropWhile is_space s)))"

text \<open>\<^verbatim>\<open>text.includes(pat)\<close>: \<open>pat\<close> occurs in \<open>text\<close> at some position.\<close>

fun js_includes :: "string \<Rightarrow> string \<Rightarrow> bool" where
  "js_includes [] pat = (pat = [])"
| "js_includes (c # cs) pat = (prefix pat (c # cs) \<or> js_includes cs pat)"

text \<open>\<^verbatim>\<open>value.split("/")\<close> and \<^verbatim>\<open>parts.join("/")\<close>.\<close>

fun split_slash :: "string \<Rightarrow> string list" where
  "split_slash [] = [[]]"
| "split_slash (c # cs) =
     (if c = CHR ''/'' then [] # split_slash cs
      else (case split_slash cs of
              [] \<Rightarrow> [[c]]
            | w # ws \<Rightarrow> (c # w) # ws))"

fun join_with :: "string \<Rightarrow> string list \<Rightarrow> string" where
  "join_with sep [] = []"
| "join_with sep [w] = w"
| "join_with sep (w # ws) = w @ sep @ join_with sep ws"

text \<open>Decimal digits of a natural number, and of an integer (\<^verbatim>\<open>String(n)\<close>).\<close>

definition digit_char :: "nat \<Rightarrow> char" where
  "digit_char d = ''0123456789'' ! d"

function digits :: "nat \<Rightarrow> string" where
  "digits n = (if n < 10 then [digit_char n] else digits (n div 10) @ [digit_char (n mod 10)])"
  by pat_completeness auto
termination
  by (relation "measure id") auto

definition show_int :: "int \<Rightarrow> string" where
  "show_int i = (if i < 0 then CHR ''-'' # digits (nat (- i)) else digits (nat i))"

text \<open>\<^verbatim>\<open>String(v)\<close>, which a template literal applies as well.\<close>

fun js_String :: "jsv \<Rightarrow> string" where
  "js_String JUndef = ''undefined''"
| "js_String JNull = ''null''"
| "js_String (JBool b) = (if b then ''true'' else ''false'')"
| "js_String (JNum n) = show_int n"
| "js_String (JStr s) = s"
| "js_String (JArr xs) =
     join_with '','' (map (\<lambda>x. if nullish x then [] else js_String x) xs)"
| "js_String (JObj fs) = ''[object Object]''"

text \<open>
  \<^verbatim>\<open>Number(v)\<close> where \<^verbatim>\<open>Number.isFinite\<close> holds of it, a rational; \<open>None\<close> where it is
  NaN or infinite. On a string, \<^verbatim>\<open>Number\<close> is the runtime's conversion of a numeric
  literal (decimal with fraction and exponent, hexadecimal, octal, binary, Infinity),
  rounded to a double. It is a built-in of the language and no code of the plugin, and
  it is taken as the parameter \<open>to_number\<close>: what is proved holds for every such
  function, so for JavaScript's. An array or an object is converted through its string.
\<close>

type_synonym to_number = "string \<Rightarrow> rat option"

fun js_Number :: "to_number \<Rightarrow> jsv \<Rightarrow> rat option" where
  "js_Number to_number JUndef = None"
| "js_Number to_number JNull = Some 0"
| "js_Number to_number (JBool b) = Some (if b then 1 else 0)"
| "js_Number to_number (JNum n) = Some (of_int n)"
| "js_Number to_number (JStr s) = to_number s"
| "js_Number to_number (JArr xs) = to_number (js_String (JArr xs))"
| "js_Number to_number (JObj fs) = to_number (js_String (JObj fs))"

text \<open>
  \<^verbatim>\<open>JSON.stringify(v)\<close> without indentation. The result is undefined (\<open>None\<close>) for
  undefined; an undefined array element prints as null and an undefined property is left
  out. Quoting escapes the double quote, the backslash and the control characters.
\<close>

definition hex_char :: "nat \<Rightarrow> char" where
  "hex_char d = ''0123456789abcdef'' ! d"

definition json_escape :: "char \<Rightarrow> string" where
  "json_escape c =
     (if c = CHR 0x22 then [CHR 0x5C, CHR 0x22]
      else if c = CHR 0x5C then [CHR 0x5C, CHR 0x5C]
      else if c = CHR 0x08 then [CHR 0x5C, CHR ''b'']
      else if c = CHR 0x0C then [CHR 0x5C, CHR ''f'']
      else if c = CHR 0x0A then [CHR 0x5C, CHR ''n'']
      else if c = CHR 0x0D then [CHR 0x5C, CHR ''r'']
      else if c = CHR 0x09 then [CHR 0x5C, CHR ''t'']
      else if (of_char c :: nat) < 32
        then [CHR 0x5C, CHR ''u'', CHR ''0'', CHR ''0'',
              hex_char ((of_char c :: nat) div 16), hex_char ((of_char c :: nat) mod 16)]
      else [c])"

definition json_quote :: "string \<Rightarrow> string" where
  "json_quote s = CHR 0x22 # concat (map json_escape s) @ [CHR 0x22]"

fun stringify :: "jsv \<Rightarrow> string option" where
  "stringify JUndef = None"
| "stringify JNull = Some ''null''"
| "stringify (JBool b) = Some (if b then ''true'' else ''false'')"
| "stringify (JNum n) = Some (show_int n)"
| "stringify (JStr s) = Some (json_quote s)"
| "stringify (JArr xs) =
     Some (''['' @ join_with '',''
             (map (\<lambda>x. case stringify x of None \<Rightarrow> ''null'' | Some t \<Rightarrow> t) xs) @ '']'')"
| "stringify (JObj fs) =
     Some (''{'' @ join_with '',''
             (concat (map (\<lambda>f. case stringify (snd f) of
                                   None \<Rightarrow> []
                                 | Some t \<Rightarrow> [json_quote (fst f) @ '':'' @ t]) fs)) @ ''}'')"

text \<open>
  The \<^verbatim>\<open>length\<close> property, where the plugin reads it: of an array, of a string, of an
  object that has such a property; undefined otherwise.
\<close>

fun js_length :: "jsv \<Rightarrow> jsv" where
  "js_length (JArr xs) = JNum (int (length xs))"
| "js_length (JStr s) = JNum (int (length s))"
| "js_length v = js_get v ''length''"

section \<open>Data model\<close>

text \<open>
  A model reference \<^verbatim>\<open>{ providerId, modelId }\<close>. \<^verbatim>\<open>parseModel\<close> fills both fields with
  strings; \<^verbatim>\<open>getSessionModel\<close> copies whatever truthy values the host's session carries.
\<close>

record ModelRef =
  providerId :: jsv
  modelId :: jsv

text \<open>
  The configuration after \<^verbatim>\<open>normalizeConfig\<close>, with the nesting flattened:
  \<open>requireProviders\<close> is \<^verbatim>\<open>licensing.requireProviders\<close>, \<open>restore_enabled\<close> and
  \<open>intervalHours\<close> are \<^verbatim>\<open>restore.enabled\<close> and \<^verbatim>\<open>restore.intervalHours\<close>,
  \<open>onStatus\<close>, \<open>onErrorCodes\<close> and \<open>onMessageMatches\<close> are under \<^verbatim>\<open>fallback\<close>, the
  three toggles under \<^verbatim>\<open>notifications\<close>. The rule lists hold numbers and strings, as
  the built-in defaults do; the two model fields stay untyped because \<^verbatim>\<open>parseModel\<close>
  checks their type itself. The configuration \<^verbatim>\<open>{ enabled: false }\<close> that
  \<^verbatim>\<open>loadConfig\<close> returns without a file has \<open>enabled\<close> and \<open>restore_enabled\<close> false.
\<close>

record config =
  enabled :: bool
  primaryModel :: jsv
  fallbackModel :: jsv
  requireProviders :: "string list"
  restore_enabled :: bool
  intervalHours :: int
  onStatus :: "int list"
  onErrorCodes :: "string list"
  onMessageMatches :: "string list"
  toastOnFallback :: bool
  toastOnRestore :: bool
  confirmOnFallback :: bool

text \<open>
  One record of the state file per session id. \<open>None\<close> is an absent (or null) field. The
  field \<open>rec_fallbackModel\<close> is the record's \<^verbatim>\<open>fallbackModel\<close>, renamed apart from
  the configuration's field.
\<close>

record FallbackRecord =
  exhaustedAt :: "int option"
  lastFallbackAt :: "int option"
  originalModel :: "string option"
  rec_fallbackModel :: "string option"
  restoredAt :: "int option"
  lastRestoreAttemptAt :: "int option"

record PersistedState =
  sessions :: "(string \<times> FallbackRecord) list"
  lastCheckAt :: int

text \<open>The closure state of \<^verbatim>\<open>CreditSwitcher\<close> (the timer handle is left out).\<close>

record plugin_state =
  config :: "config option"
  configPath :: "string option"
  statePath :: "string option"
  stateData :: "PersistedState option"
  attemptedSessions :: "string set"

section \<open>The host\<close>

text \<open>
  A host call either rejects (throws into the awaiting code) or resolves to a value. One
  \<open>host\<close> gives the answers of the host during one run of the event handler or of the
  sweep; \<open>tui_showConfirm\<close> is \<open>None\<close> when the host has no such capability. Every
  call made is appended to a trace. An exception that leaves a function of the plugin is
  a \<open>js_error\<close>: the rejection of the named host call, or a TypeError at the named
  property access.
\<close>

datatype response = Rejects | Resolves jsv

datatype js_error = Rejected string | TypeError string

record host =
  config_providers :: response
  session_get :: "string \<Rightarrow> response"
  session_messages :: "string \<Rightarrow> response"
  session_prompt :: "string \<Rightarrow> response"
  session_update :: "string \<Rightarrow> response"
  tui_showToast :: response
  tui_showConfirm :: "response option"
  bun_write :: response

datatype call =
    ConfigProviders
  | SessionGet string
  | SessionMessages string
  | SessionPrompt string ModelRef jsv
  | SessionUpdate string ModelRef
  | ShowToast string string
  | ShowConfirm string
  | AppLog string string
  | BunWrite string PersistedState

text \<open>
  \<^verbatim>\<open>safeLog\<close> awaits \<^verbatim>\<open>client.app.log\<close> inside try/catch and returns nothing either
  way: its only effect is the call, kept here with its level and message (the context
  object passed along is left out).
\<close>

definition safeLog :: "string \<Rightarrow> string \<Rightarrow> call list" where
  "safeLog level message = [AppLog level message]"

text \<open>
  \<^verbatim>\<open>saveState\<close>: nothing without a state path; otherwise the write, and a logged error
  when it fails.
\<close>

definition saveState :: "host \<Rightarrow> string option \<Rightarrow> PersistedState \<Rightarrow> call list" where
  "saveState h path sd =
     (case path of
        None \<Rightarrow> []
      | Some p \<Rightarrow>
          (if p = [] then []
           else (case bun_write h of
                   Rejects \<Rightarrow> BunWrite p sd # safeLog ''error'' ''Failed to save state''
                 | Resolves r \<Rightarrow> [BunWrite p sd])))"

section \<open>Model references\<close>

definition parseModel :: "jsv \<Rightarrow> ModelRef option" where
  "parseModel v =
     (case v of
        JStr s \<Rightarrow>
          (if s = [] then None
           else (let parts = split_slash s
                 in if length parts < 2 then None
                    else Some \<lparr>providerId = JStr (hd parts),
                               modelId = JStr (join_with ''/'' (tl parts))\<rparr>))
      | _ \<Rightarrow> None)"

text \<open>
  \<^verbatim>\<open>modelToString\<close>. Its callers pass a model reference or null, never a string, so the
  branch for a string argument has no counterpart here.
\<close>

definition modelToString :: "ModelRef option \<Rightarrow> string option" where
  "modelToString model =
     (case model of
        None \<Rightarrow> None
      | Some m \<Rightarrow>
          (if truthy (providerId m) \<and> truthy (modelId m)
           then Some (js_String (providerId m) @ ''/'' @ js_String (modelId m))
           else None))"

definition modelsEqual :: "ModelRef option \<Rightarrow> ModelRef option \<Rightarrow> bool" where
  "modelsEqual a b =
     (case (a, b) of
        (Some x, Some y) \<Rightarrow>
          strict_eq (providerId x) (providerId y) \<and> strict_eq (modelId x) (modelId y)
      | _ \<Rightarrow> False)"

section \<open>Classifying an event\<close>

fun first_finite :: "to_number \<Rightarrow> jsv list \<Rightarrow> rat option" where
  "first_finite to_number [] = None"
| "first_finite to_number (v # vs) =
     (case js_Number to_number v of
        Some n \<Rightarrow> Some n
      | None \<Rightarrow> first_finite to_number vs)"

definition extractStatus :: "to_number \<Rightarrow> jsv \<Rightarrow> rat option" where
  "extractStatus to_number event =
     first_finite to_number
       [js_path event [''properties'', ''error'', ''status''],
        js_path event [''properties'', ''status''],
        js_path event [''error'', ''status''],
        js_path event [''status'']]"

text \<open>The first candidate that is a string with something left after trimming.\<close>

fun first_string :: "jsv list \<Rightarrow> string option" where
  "first_string [] = None"
| "first_string (JStr s # vs) = (if trim s \<noteq> [] then Some s else first_string vs)"
| "first_string (v # vs) = first_string vs"

definition extractCode :: "jsv \<Rightarrow> string option" where
  "extractCode event =
     map_option trim
       (first_string
          [js_path event [''properties'', ''error'', ''code''],
           js_path event [''properties'', ''code''],
           js_path event [''error'', ''code''],
           js_path event [''code'']])"

text \<open>
  \<^verbatim>\<open>extractText\<close>: the first message, lower-cased; without one, the whole event as
  JSON, lower-cased; the empty string when that throws (\<^verbatim>\<open>JSON.stringify\<close> gave
  undefined, which has no \<^verbatim>\<open>toLowerCase\<close>).
\<close>

definition extractText :: "jsv \<Rightarrow> string" where
  "extractText event =
     (case first_string
             [js_path event [''properties'', ''error'', ''message''],
              js_path event [''properties'', ''message''],
              js_path event [''error'', ''message''],
              js_path event [''message'']] of
        Some s \<Rightarrow> toLowerCase s
      | None \<Rightarrow>
          (case stringify event of
             Some t \<Rightarrow> toLowerCase t
           | None \<Rightarrow> []))"

definition extractSessionId :: "jsv \<Rightarrow> string option" where
  "extractSessionId event =
     map_option trim
       (first_string
          [js_path event [''properties'', ''session'', ''id''],
           js_path event [''properties'', ''sessionId''],
           js_path event [''properties'', ''id''],
           js_path event [''session'', ''id''],
           js_path event [''sessionId''],
           js_path event [''id'']])"

text \<open>
  \<^verbatim>\<open>isCreditExhausted\<close>. The configured statuses are numbers, so \<^verbatim>\<open>Number(value)\<close>
  is the value; \<^verbatim>\<open>code ? ... : false\<close> and \<^verbatim>\<open>text ? ... : false\<close> test for a non-empty
  string.
\<close>

definition isCreditExhausted :: "to_number \<Rightarrow> jsv \<Rightarrow> config \<Rightarrow> bool" where
  "isCreditExhausted to_number event cfg =
     (let status = extractStatus to_number event;
          code = extractCode event;
          text = extractText event;
          statusMatches = list_ex (\<lambda>v. Some (of_int v) = status) (onStatus cfg);
          codeMatches =
            (case code of
               None \<Rightarrow> False
             | Some c \<Rightarrow>
                 (if c = [] then False
                  else list_ex (\<lambda>v. toLowerCase v = toLowerCase c) (onErrorCodes cfg)));
          textMatches =
            (if text = [] then False
             else list_ex (\<lambda>v. js_includes text (toLowerCase v)) (onMessageMatches cfg))
      in statusMatches \<or> codeMatches \<or> textMatches)"

section \<open>Calls to the host\<close>

text \<open>
  \<^verbatim>\<open>getProviders\<close>: the \<^verbatim>\<open>providers\<close> property of the response (or of its
  \<^verbatim>\<open>data\<close>), the empty array when that is falsy or the call throws.
\<close>

definition getProviders :: "host \<Rightarrow> jsv \<times> call list" where
  "getProviders h =
     (case config_providers h of
        Rejects \<Rightarrow> (JArr [], [ConfigProviders])
      | Resolves response \<Rightarrow>
          (let payload = js_coalesce (js_get response ''data'') response
           in (js_or (js_get payload ''providers'') (JArr []), [ConfigProviders])))"

text \<open>\<^verbatim>\<open>provider.id || provider.providerID || provider.name\<close>\<close>

definition provider_key :: "jsv \<Rightarrow> jsv" where
  "provider_key provider =
     js_or (js_or (js_get provider ''id'') (js_get provider ''providerID''))
           (js_get provider ''name'')"

text \<open>
  \<^verbatim>\<open>hasRequiredProviders\<close>. Nothing here is inside try/catch: reading \<^verbatim>\<open>provider.id\<close>
  of a null or undefined element throws, and so does \<^verbatim>\<open>providers.map\<close> when the payload's
  \<^verbatim>\<open>providers\<close> has a truthy length and is no array.
\<close>

definition hasRequiredProviders :: "host \<Rightarrow> config \<Rightarrow> (js_error + bool) \<times> call list" where
  "hasRequiredProviders h cfg =
     (let required = requireProviders cfg
      in if required = [] then (Inr True, [])
         else (let (providers, t) = getProviders h
               in if \<not> truthy (js_length providers) then (Inr False, t)
                  else (case providers of
                          JArr ps \<Rightarrow>
                            (if list_ex nullish ps
                             then (Inl (TypeError ''provider.id''), t)
                             else (let ids = map (\<lambda>v. toLowerCase (js_String v))
                                               (filter truthy (map provider_key ps))
                                   in (Inr (list_all (\<lambda>v. toLowerCase v \<in> set ids) required), t)))
                        | _ \<Rightarrow> (Inl (TypeError ''providers.map''), t))))"

text \<open>\<^verbatim>\<open>getSessionModel\<close>: everything is inside try/catch.\<close>

definition getSessionModel :: "host \<Rightarrow> string \<Rightarrow> ModelRef option \<times> call list" where
  "getSessionModel h sessionId =
     (case session_get h sessionId of
        Rejects \<Rightarrow> (None, [SessionGet sessionId])
      | Resolves response \<Rightarrow>
          (let session = js_coalesce (js_get response ''data'') response;
               model = js_or (js_or (js_get session ''model'')
                                    (js_path session [''config'', ''model'']))
                             (js_path session [''current'', ''model''])
           in (if \<not> truthy model then None
               else (case model of
                       JStr s \<Rightarrow> parseModel model
                     | _ \<Rightarrow>
                         (let pid = js_or (js_or (js_get model ''providerID'')
                                                 (js_get model ''providerId''))
                                          (js_get model ''provider'');
                              mid = js_or (js_or (js_get model ''modelID'')
                                                 (js_get model ''modelId''))
                                          (js_get model ''id'')
                          in if truthy pid \<and> truthy mid
                             then Some \<lparr>providerId = pid, modelId = mid\<rparr>
                             else None)),
               [SessionGet sessionId])))"

definition setSessionModel :: "host \<Rightarrow> string \<Rightarrow> ModelRef option \<Rightarrow> bool \<times> call list" where
  "setSessionModel h sessionId model =
     (case model of
        None \<Rightarrow> (False, [])
      | Some m \<Rightarrow>
          (case session_update h sessionId of
             Rejects \<Rightarrow> (False, [SessionUpdate sessionId m])
           | Resolves r \<Rightarrow> (True, [SessionUpdate sessionId m])))"

text \<open>
  \<^verbatim>\<open>getLastUserMessage\<close>: the last entry that is user-authored and has a non-empty array
  of parts. \<^verbatim>\<open>entry.parts\<close> is read only when \<open>isUser\<close> holds, and then \<open>entry\<close> is
  an object.
\<close>

definition is_user_entry :: "jsv \<Rightarrow> bool" where
  "is_user_entry entry =
     (let info = js_or (js_or (js_get entry ''info'') (js_get entry ''message'')) (JObj []);
          role = js_or (js_or (js_get info ''role'') (js_get info ''type'')) (js_get info ''kind'');
          isUser = (strict_eq role (JStr ''user'') \<or> strict_eq role (JStr ''UserMessage'')
                    \<or> strict_eq (js_get info ''user'') (JBool True))
      in isUser \<and> (case js_get entry ''parts'' of JArr ps \<Rightarrow> ps \<noteq> [] | _ \<Rightarrow> False))"

definition getLastUserMessage :: "host \<Rightarrow> string \<Rightarrow> jsv option \<times> call list" where
  "getLastUserMessage h sessionId =
     (case session_messages h sessionId of
        Rejects \<Rightarrow> (None, [SessionMessages sessionId])
      | Resolves response \<Rightarrow>
          (case js_coalesce (js_get response ''data'') response of
             JArr messages \<Rightarrow> (find is_user_entry (rev messages), [SessionMessages sessionId])
           | _ \<Rightarrow> (None, [SessionMessages sessionId])))"

text \<open>
  What \<^verbatim>\<open>confirmFallback\<close> makes of a response of the confirmation prompt: the payload
  when it is a boolean, else the first of its properties confirmed, accepted, value, ok
  and success that is neither null nor undefined when that is a boolean, else true.
\<close>

definition confirm_answer :: "jsv \<Rightarrow> bool" where
  "confirm_answer response =
     (let payload = js_coalesce (js_get response ''data'') response
      in (case payload of
            JBool b \<Rightarrow> b
          | _ \<Rightarrow>
              (let confirmed =
                     js_coalesce (js_coalesce (js_coalesce (js_coalesce
                       (js_get payload ''confirmed'') (js_get payload ''accepted''))
                       (js_get payload ''value'')) (js_get payload ''ok''))
                       (js_get payload ''success'')
               in (case confirmed of
                     JBool b \<Rightarrow> b
                   | _ \<Rightarrow> True))))"

text \<open>
  \<^verbatim>\<open>confirmFallback\<close>: true without asking when confirmation is off or the host cannot
  ask; true, after a debug log, when the prompt throws. Its \<^verbatim>\<open>fallbackModel\<close> argument
  only goes into that log's context and is left out.
\<close>

definition confirmFallback :: "host \<Rightarrow> config \<Rightarrow> string \<Rightarrow> bool \<times> call list" where
  "confirmFallback h cfg sessionId =
     (if \<not> confirmOnFallback cfg then (True, [])
      else (case tui_showConfirm h of
              None \<Rightarrow> (True, [])
            | Some Rejects \<Rightarrow>
                (True, ShowConfirm ''Credits exhausted. Retry with fallback model?''
                       # safeLog ''debug'' ''Confirm prompt failed'')
            | Some (Resolves response) \<Rightarrow>
                (confirm_answer response,
                 [ShowConfirm ''Credits exhausted. Retry with fallback model?''])))"

section \<open>The event handler\<close>

text \<open>
  The handler returns nothing; \<open>outcome\<close> names the \<^verbatim>\<open>return\<close> it left through, and
  \<open>Threw\<close> is an exception that leaves the handler (its promise rejects).
\<close>

datatype outcome =
    Ignored
  | NotExhausted
  | NoSessionId
  | AlreadyAttempted
  | ProvidersMissing
  | InvalidFallbackModel
  | ProviderMismatch
  | NoUserMessage
  | Declined
  | Completed
  | Threw js_error

text \<open>
  The end of the handler, from \<^verbatim>\<open>state.attemptedSessions.add(sessionId)\<close> on the accepted
  path: the record is written and saved, the prompt is sent outside any try/catch, the
  toast inside one. \<open>now\<close> is \<^verbatim>\<open>Date.now()\<close>.
\<close>

text \<open>
  The record the handler stores under the session id:
  \<^verbatim>\<open>{ exhaustedAt: now, lastFallbackAt: now, originalModel: modelToString(sessionModel || primaryModel), fallbackModel: modelToString(fallbackModel) }\<close>.
\<close>

definition sessionModel_or :: "ModelRef option \<Rightarrow> ModelRef option \<Rightarrow> ModelRef option" where
  "sessionModel_or sessionModel primary =
     (case sessionModel of
        Some m \<Rightarrow> Some m
      | None \<Rightarrow> primary)"

definition new_record :: "int \<Rightarrow> ModelRef option \<Rightarrow> ModelRef \<Rightarrow> FallbackRecord" where
  "new_record now original fallback =
     \<lparr>exhaustedAt = Some now,
      lastFallbackAt = Some now,
      originalModel = modelToString original,
      rec_fallbackModel = modelToString (Some fallback),
      restoredAt = None,
      lastRestoreAttemptAt = None\<rparr>"

definition retry_with_fallback ::
  "host \<Rightarrow> int \<Rightarrow> config \<Rightarrow> plugin_state \<Rightarrow> string \<Rightarrow> ModelRef option \<Rightarrow> ModelRef
     \<Rightarrow> ModelRef option \<Rightarrow> jsv \<Rightarrow> outcome \<times> plugin_state \<times> call list" where
  "retry_with_fallback h now cfg st sessionId primary fallback sessionModel lastUserMessage =
     (let st1 = st\<lparr>attemptedSessions := insert sessionId (attemptedSessions st)\<rparr>;
          t1 = safeLog ''info'' ''Retrying with fallback model'';
          (st2, t2) =
            (case stateData st1 of
               None \<Rightarrow> (st1, [])
             | Some sd \<Rightarrow>
                 (let sd' = sd\<lparr>sessions :=
                                AList.update sessionId
                                  (new_record now (sessionModel_or sessionModel primary) fallback)
                                  (sessions sd)\<rparr>
                  in (st1\<lparr>stateData := Some sd'\<rparr>, saveState h (statePath st1) sd')));
          t3 = [SessionPrompt sessionId fallback (js_get lastUserMessage ''parts'')]
      in (case session_prompt h sessionId of
            Rejects \<Rightarrow> (Threw (Rejected ''client.session.prompt''), st2, t1 @ t2 @ t3)
          | Resolves r \<Rightarrow>
              (let t4 =
                     (if toastOnFallback cfg
                      then (case tui_showToast h of
                              Rejects \<Rightarrow>
                                ShowToast ''Credits exhausted. Switched to fallback model.'' ''warning''
                                # safeLog ''debug'' ''Toast failed''
                            | Resolves r \<Rightarrow>
                                [ShowToast ''Credits exhausted. Switched to fallback model.'' ''warning''])
                      else [])
               in (Completed, st2, t1 @ t2 @ t3 @ t4))))"

text \<open>
  \<^verbatim>\<open>if (primaryModel && sessionModel && sessionModel.providerId)\<close> and, inside it,
  \<^verbatim>\<open>sessionModel.providerId !== primaryModel.providerId\<close>.
\<close>

definition provider_differs :: "ModelRef option \<Rightarrow> ModelRef option \<Rightarrow> bool" where
  "provider_differs primary sessionModel =
     (case (primary, sessionModel) of
        (Some p, Some m) \<Rightarrow>
          truthy (providerId m) \<and> \<not> strict_eq (providerId m) (providerId p)
      | _ \<Rightarrow> False)"

text \<open>
  The middle of the handler, from the licensing check to the answer of the confirmation:
  every \<^verbatim>\<open>return\<close> on the way leaves the state as it is.
\<close>

definition fallback_attempt ::
  "host \<Rightarrow> int \<Rightarrow> config \<Rightarrow> plugin_state \<Rightarrow> string \<Rightarrow> outcome \<times> plugin_state \<times> call list" where
  "fallback_attempt h now cfg st sessionId =
     (case hasRequiredProviders h cfg of
        (Inl e, t1) \<Rightarrow> (Threw e, st, t1)
      | (Inr ok, t1) \<Rightarrow>
      if \<not> ok
      then (ProvidersMissing, st,
            t1 @ safeLog ''warn'' ''Required providers not configured; skipping fallback'')
      else (case parseModel (fallbackModel cfg) of
        None \<Rightarrow> (InvalidFallbackModel, st, t1 @ safeLog ''error'' ''Invalid fallbackModel in config'')
      | Some fallback \<Rightarrow>
      (let primary = parseModel (primaryModel cfg);
           (sessionModel, t2) = getSessionModel h sessionId
       in if provider_differs primary sessionModel then (ProviderMismatch, st, t1 @ t2)
      else (case getLastUserMessage h sessionId of
        (None, t3) \<Rightarrow>
          (NoUserMessage, st, t1 @ t2 @ t3 @ safeLog ''warn'' ''No user message to retry'')
      | (Some lastUserMessage, t3) \<Rightarrow>
      (let (shouldRetry, t4) = confirmFallback h cfg sessionId
       in if \<not> shouldRetry
          then (Declined, st\<lparr>attemptedSessions := insert sessionId (attemptedSessions st)\<rparr>,
                t1 @ t2 @ t3 @ t4 @ safeLog ''info'' ''User declined fallback retry'')
          else (case retry_with_fallback h now cfg st sessionId primary fallback sessionModel
                       lastUserMessage of
                  (out, st', t5) \<Rightarrow> (out, st', t1 @ t2 @ t3 @ t4 @ t5)))))))"

text \<open>
  The guards of the handler, lines 676 to 690: they read the state and change nothing.
  Either the handler returns (with the log of a missing session id as its only call), or
  it goes on with the configuration and the session id it has bound. Nothing is awaited
  between the first guard and the \<^verbatim>\<open>attemptedSessions.has\<close> check of a run that goes on.
\<close>

definition handler_guards ::
  "to_number \<Rightarrow> jsv \<Rightarrow> plugin_state \<Rightarrow> (outcome \<times> call list) + (config \<times> string)" where
  "handler_guards to_number event st =
     (if \<not> truthy event \<or> \<not> strict_eq (js_get event ''type'') (JStr ''session.error'')
      then Inl (Ignored, [])
      else (case config st of
        None \<Rightarrow> Inl (Ignored, [])
      | Some cfg \<Rightarrow>
      if \<not> enabled cfg then Inl (Ignored, [])
      else if \<not> isCreditExhausted to_number event cfg then Inl (NotExhausted, [])
      else (case extractSessionId event of
        None \<Rightarrow> Inl (NoSessionId, safeLog ''warn'' ''Credit error without session id'')
      | Some sessionId \<Rightarrow>
      if sessionId \<in> attemptedSessions st then Inl (AlreadyAttempted, [])
      else Inr (cfg, sessionId))))"

text \<open>
  The handler, run from its start to its end with no other run in between: its guards,
  then the attempt on the same state.
\<close>

definition event_handler ::
  "to_number \<Rightarrow> host \<Rightarrow> int \<Rightarrow> jsv \<Rightarrow> plugin_state \<Rightarrow> outcome \<times> plugin_state \<times> call list" where
  "event_handler to_number h now event st =
     (case handler_guards to_number event st of
        Inl (out, t) \<Rightarrow> (out, st, t)
      | Inr (cfg, sessionId) \<Rightarrow> fallback_attempt h now cfg st sessionId)"

text \<open>
  Runs of the handler that overlap. The handler is an async function: a run that has
  passed its guards is suspended at an \<^verbatim>\<open>await\<close> (lines 692, 710, 715, 721) before it
  adds its session id at line 729 or 734, and the host may start the run of the next
  event meanwhile. A \<open>process\<close> is the shared state of the closure, the runs that have
  passed their guards and wait, each with the configuration and session id it bound,
  and the calls made so far. \<open>Arrives\<close> starts a run: its guards read the shared state
  as it is then. \<open>Resumes i\<close> lets the \<open>i\<close>-th waiting run go on to its end on the
  shared state as it is by then, with the host's answers and the clock of that moment;
  the calls of a run are recorded when it ends. Every list of moves is a schedule the
  program can follow; schedules that switch between two runs more often are left out.
\<close>

record process =
  shared :: plugin_state
  waiting :: "(config \<times> string) list"
  calls :: "call list"

datatype move = Arrives jsv | Resumes nat host int

fun make_move :: "to_number \<Rightarrow> process \<Rightarrow> move \<Rightarrow> process" where
  "make_move to_number p (Arrives event) =
     (case handler_guards to_number event (shared p) of
        Inl (out, t) \<Rightarrow> p\<lparr>calls := calls p @ t\<rparr>
      | Inr run \<Rightarrow> p\<lparr>waiting := waiting p @ [run]\<rparr>)"
| "make_move to_number p (Resumes i h now) =
     (if i < length (waiting p)
      then (case waiting p ! i of
              (cfg, sessionId) \<Rightarrow>
                (case fallback_attempt h now cfg (shared p) sessionId of
                   (out, st', t) \<Rightarrow>
                     p\<lparr>shared := st',
                       waiting := take i (waiting p) @ drop (Suc i) (waiting p),
                       calls := calls p @ t\<rparr>))
      else p)"

definition run_moves :: "to_number \<Rightarrow> process \<Rightarrow> move list \<Rightarrow> process" where
  "run_moves to_number p moves = foldl (make_move to_number) p moves"

section \<open>The restore sweep\<close>

definition DAY_MS :: int where
  "DAY_MS = 24 * 60 * 60 * 1000"

text \<open>
  The interval \<^verbatim>\<open>scheduleRestoreCheck\<close> passes to every sweep:
  \<^verbatim>\<open>Math.max(1, Number(intervalHours || 24)) * 60 * 60 * 1000\<close>.
\<close>

definition intervalMs_of :: "config \<Rightarrow> int" where
  "intervalMs_of cfg =
     max 1 (if intervalHours cfg = 0 then 24 else intervalHours cfg) * 60 * 60 * 1000"

text \<open>\<^verbatim>\<open>record.originalModel || state.config.primaryModel\<close> and its sibling.\<close>

definition stored_or :: "string option \<Rightarrow> jsv \<Rightarrow> jsv" where
  "stored_or stored configured =
     (case stored of
        None \<Rightarrow> configured
      | Some s \<Rightarrow> if s = [] then configured else JStr s)"

text \<open>
  \<^verbatim>\<open>parseModel(record.originalModel || state.config.primaryModel)\<close> and
  \<^verbatim>\<open>parseModel(record.fallbackModel || state.config.fallbackModel)\<close>.
\<close>

definition record_original :: "config \<Rightarrow> FallbackRecord \<Rightarrow> ModelRef option" where
  "record_original cfg record = parseModel (stored_or (originalModel record) (primaryModel cfg))"

definition record_fallback :: "config \<Rightarrow> FallbackRecord \<Rightarrow> ModelRef option" where
  "record_fallback cfg record = parseModel (stored_or (rec_fallbackModel record) (fallbackModel cfg))"

text \<open>
  One turn of the loop over \<^verbatim>\<open>Object.entries(sessions)\<close>: the record as the turn leaves
  it, and the calls made.
\<close>

definition restore_record ::
  "host \<Rightarrow> config \<Rightarrow> int \<Rightarrow> int \<Rightarrow> string \<Rightarrow> FallbackRecord \<Rightarrow> FallbackRecord \<times> call list" where
  "restore_record h cfg now threshold sessionId record =
     (let exhausted = (case exhaustedAt record of None \<Rightarrow> 0 | Some e \<Rightarrow> e)
      in if exhausted = 0 \<or> now - exhausted < threshold then (record, [])
         else (let original = record_original cfg record;
                   fallback = record_fallback cfg record
               in if original = None \<or> fallback = None then (record, [])
                  else (let (sessionModel, t1) = getSessionModel h sessionId
                        in if sessionModel \<noteq> None \<and> modelsEqual sessionModel original
                           then (record\<lparr>restoredAt := Some now\<rparr>, t1)
                           else if sessionModel \<noteq> None \<and> \<not> modelsEqual sessionModel fallback
                           then (record, t1)
                           else (let (updated, t2) = setSessionModel h sessionId original;
                                     record1 = record\<lparr>lastRestoreAttemptAt := Some now\<rparr>
                                 in if updated
                                    then (record1\<lparr>restoredAt := Some now\<rparr>,
                                          t1 @ t2 @
                                          (if toastOnRestore cfg
                                           then (case tui_showToast h of
                                                   Rejects \<Rightarrow>
                                                     ShowToast ''Credits restored. Switched back to primary model.'' ''success''
                                                     # safeLog ''debug'' ''Restore toast failed''
                                                 | Resolves r \<Rightarrow>
                                                     [ShowToast ''Credits restored. Switched back to primary model.'' ''success''])
                                           else []))
                                    else (record1,
                                          t1 @ t2 @ safeLog ''warn'' ''Failed to restore primary model'')))))"

text \<open>The loop: every record is mutated in place, in the order of the entries.\<close>

fun restore_loop ::
  "host \<Rightarrow> config \<Rightarrow> int \<Rightarrow> int \<Rightarrow> (string \<times> FallbackRecord) list
     \<Rightarrow> (string \<times> FallbackRecord) list \<times> call list" where
  "restore_loop h cfg now threshold [] = ([], [])"
| "restore_loop h cfg now threshold ((sessionId, record) # es) =
     (let (record', t1) = restore_record h cfg now threshold sessionId record;
          (es', t2) = restore_loop h cfg now threshold es
      in ((sessionId, record') # es', t1 @ t2))"

text \<open>\<^verbatim>\<open>const threshold = intervalMs || DAY_MS\<close>: the day when the interval is 0.\<close>

definition threshold_of :: "int \<Rightarrow> int" where
  "threshold_of intervalMs = (if intervalMs = 0 then DAY_MS else intervalMs)"

text \<open>
  The start of \<^verbatim>\<open>runRestoreCheck\<close>, lines 1104 to 1113, up to the loop; \<open>now\<close> is its
  \<^verbatim>\<open>Date.now()\<close>, read once. Either the sweep returns at once (\<open>None\<close>), or it has
  written \<open>lastCheckAt\<close> and goes on to the loop with the persisted state as it is
  then, the configuration and the threshold.
\<close>

definition sweep_begin ::
  "int \<Rightarrow> int \<Rightarrow> plugin_state \<Rightarrow> (PersistedState \<times> config \<times> int) option" where
  "sweep_begin now intervalMs st =
     (case config st of
        None \<Rightarrow> None
      | Some cfg \<Rightarrow>
          (if \<not> restore_enabled cfg then None
           else (case stateData st of
                   None \<Rightarrow> None
                 | Some sd \<Rightarrow>
                     (let threshold = threshold_of intervalMs
                      in if now - lastCheckAt sd < threshold then None
                         else Some (sd\<lparr>lastCheckAt := now\<rparr>, cfg, threshold)))))"

text \<open>
  \<^verbatim>\<open>runRestoreCheck\<close>: the start, then the loop over the records of the state the start
  has left, then the save.
\<close>

definition runRestoreCheck :: "host \<Rightarrow> int \<Rightarrow> int \<Rightarrow> plugin_state \<Rightarrow> plugin_state \<times> call list" where
  "runRestoreCheck h now intervalMs st =
     (case sweep_begin now intervalMs st of
        None \<Rightarrow> (st, [])
      | Some (sd1, cfg, threshold) \<Rightarrow>
          (let (es, t) = restore_loop h cfg now threshold (sessions sd1);
               sd2 = sd1\<lparr>sessions := es\<rparr>
           in (st\<lparr>stateData := Some sd2\<rparr>, t @ saveState h (statePath st) sd2)))"

section \<open>Notions the properties are stated with\<close>

text \<open>
  The trigger condition in the words of the specification, over the three signals taken
  from the event: the status is in the configured set, or the error code equals a
  configured code up to case, or the message text contains a configured substring up to
  case.
\<close>

definition trigger_condition :: "rat option \<Rightarrow> string option \<Rightarrow> string \<Rightarrow> config \<Rightarrow> bool" where
  "trigger_condition status code text cfg \<longleftrightarrow>
     (\<exists>s. status = Some (of_int s) \<and> s \<in> set (onStatus cfg))
     \<or> (\<exists>c v. code = Some c \<and> v \<in> set (onErrorCodes cfg) \<and> toLowerCase v = toLowerCase c)
     \<or> (\<exists>v. v \<in> set (onMessageMatches cfg) \<and> sublist (toLowerCase v) (toLowerCase text))"

text \<open>
  The calls by which a fallback or a restore acts on the world: sending a prompt, updating
  a session's model, writing the state file.
\<close>

fun is_fallback_action :: "call \<Rightarrow> bool" where
  "is_fallback_action (SessionPrompt sid m parts) = True"
| "is_fallback_action (SessionUpdate sid m) = True"
| "is_fallback_action (BunWrite path sd) = True"
| "is_fallback_action c = False"

text \<open>
  The outcomes of a run that left after \<^verbatim>\<open>confirmFallback\<close> had returned: declined,
  completed, or thrown out of by the prompt.
\<close>

fun offered :: "outcome \<Rightarrow> bool" where
  "offered Declined = True"
| "offered Completed = True"
| "offered (Threw (Rejected api)) = True"
| "offered out = False"


text \<open>
  A run of the handler was quiet: the state is as it was, the offer was not reached, and
  no fallback action was taken.
\<close>

definition quiet :: "plugin_state \<Rightarrow> outcome \<times> plugin_state \<times> call list \<Rightarrow> bool" where
  "quiet st res \<longleftrightarrow>
     (case res of
        (out, st', t) \<Rightarrow>
          st' = st \<and> \<not> offered out \<and> list_all (\<lambda>c. \<not> is_fallback_action c) t)"





text \<open>
  A required provider id is listed when some provider of the list carries it, up to case,
  as the id the plugin reads off a provider.
\<close>

definition provider_listed :: "jsv list \<Rightarrow> string \<Rightarrow> bool" where
  "provider_listed ps required \<longleftrightarrow>
     list_ex (\<lambda>p. truthy (provider_key p)
                \<and> toLowerCase (js_String (provider_key p)) = toLowerCase required) ps"

text \<open>
  A confirmation payload carries no recognised boolean: it is no boolean itself, and none
  of its properties confirmed, accepted, value, ok and success is one.
\<close>

fun is_boolean :: "jsv \<Rightarrow> bool" where
  "is_boolean (JBool b) = True"
| "is_boolean v = False"

definition no_recognized_boolean :: "jsv \<Rightarrow> bool" where
  "no_recognized_boolean payload \<longleftrightarrow>
     \<not> is_boolean payload
     \<and> list_all (\<lambda>k. \<not> is_boolean (js_get payload k))
          [''confirmed'', ''accepted'', ''value'', ''ok'', ''success'']"

text \<open>Every call but the debug log of a failed confirmation prompt.\<close>

definition not_confirm_log :: "call \<Rightarrow> bool" where
  "not_confirm_log c \<longleftrightarrow> c \<noteq> AppLog ''debug'' ''Confirm prompt failed''"

text \<open>A run of the handler, seen without that log.\<close>

definition observed :: "outcome \<times> plugin_state \<times> call list \<Rightarrow> outcome \<times> plugin_state \<times> call list" where
  "observed res = (case res of (out, st', t) \<Rightarrow> (out, st', filter not_confirm_log t))"

text \<open>
  Two versions of a record belong to the same fallback episode: what the handler wrote is
  the same, and a restore that was marked is still marked.
\<close>

definition same_episode :: "FallbackRecord \<Rightarrow> FallbackRecord \<Rightarrow> bool" where
  "same_episode r r' \<longleftrightarrow>
     exhaustedAt r' = exhaustedAt r \<and> lastFallbackAt r' = lastFallbackAt r
     \<and> originalModel r' = originalModel r \<and> rec_fallbackModel r' = rec_fallbackModel r
     \<and> (restoredAt r = None \<or> restoredAt r' \<noteq> None)"

section \<open>Concrete configurations, events and hosts\<close>

text \<open>
  Where an example is evaluated, \<open>integer_Number\<close> stands in for the runtime's
  \<^verbatim>\<open>Number\<close> on strings: 0 for white space, the value of an optionally signed decimal
  integer, NaN elsewhere. The events of the examples carry their status as a number, so
  that no example consults it.
\<close>

definition digit_val :: "char \<Rightarrow> nat option" where
  "digit_val c = map_of (zip ''0123456789'' [0, 1, 2, 3, 4, 5, 6, 7, 8, 9]) c"

fun read_digits :: "nat \<Rightarrow> string \<Rightarrow> nat option" where
  "read_digits acc [] = Some acc"
| "read_digits acc (c # cs) =
     (case digit_val c of
        None \<Rightarrow> None
      | Some d \<Rightarrow> read_digits (10 * acc + d) cs)"

definition integer_Number :: to_number where
  "integer_Number s =
     (case trim s of
        [] \<Rightarrow> Some 0
      | c # cs \<Rightarrow>
          (if c = CHR ''-'' \<and> cs \<noteq> [] then map_option (\<lambda>n. - of_nat n) (read_digits 0 cs)
           else if c = CHR ''+'' \<and> cs \<noteq> [] then map_option of_nat (read_digits 0 cs)
           else map_option of_nat (read_digits 0 (c # cs))))"

text \<open>
  A configuration with primary model p1/m1 and fallback model p2/m2, the built-in trigger
  rules, no licensing requirement and no confirmation.
\<close>

definition demo_config :: config where
  "demo_config =
     \<lparr>enabled = True,
      primaryModel = JStr ''p1/m1'',
      fallbackModel = JStr ''p2/m2'',
      requireProviders = [],
      restore_enabled = True,
      intervalHours = 24,
      onStatus = [402, 429],
      onErrorCodes = [''CREDITS_EXHAUSTED'', ''ACCOUNT_LIMIT_REACHED'', ''QUOTA_EXCEEDED''],
      onMessageMatches = [''credit'', ''quota'', ''insufficient'', ''exceeded'', ''payment'', ''limit''],
      toastOnFallback = True,
      toastOnRestore = True,
      confirmOnFallback = False\<rparr>"

text \<open>A session error with status 429 for the session s1, and one that matches no rule.\<close>

definition demo_event :: jsv where
  "demo_event =
     JObj [(''type'', JStr ''session.error''),
           (''properties'',
            JObj [(''sessionId'', JStr ''s1''),
                  (''error'', JObj [(''status'', JNum 429), (''message'', JStr ''Too Many Requests'')])])]"

definition other_event :: jsv where
  "other_event =
     JObj [(''type'', JStr ''session.error''),
           (''properties'',
            JObj [(''sessionId'', JStr ''s1''),
                  (''error'', JObj [(''status'', JNum 500), (''message'', JStr ''Internal error'')])])]"

text \<open>
  Two session errors whose status is a string: the numeral 429.0, and the numeral 0.5
  ahead of a top-level status 429.
\<close>

definition string_status_event :: jsv where
  "string_status_event =
     JObj [(''type'', JStr ''session.error''),
           (''properties'',
            JObj [(''sessionId'', JStr ''s1''),
                  (''error'', JObj [(''status'', JStr ''429.0''), (''message'', JStr ''Internal error'')])])]"

definition fraction_first_event :: jsv where
  "fraction_first_event =
     JObj [(''type'', JStr ''session.error''),
           (''properties'',
            JObj [(''sessionId'', JStr ''s1''),
                  (''error'', JObj [(''status'', JStr ''0.5''), (''message'', JStr ''Internal error'')])]),
           (''status'', JNum 429)]"

text \<open>
  A host on which every call resolves: one provider p1, every session on the model
  \<open>model\<close>, one user message with the text part hi, no confirm capability.
\<close>

definition demo_host :: "string \<Rightarrow> host" where
  "demo_host model =
     \<lparr>config_providers = Resolves (JObj [(''data'', JObj [(''providers'', JArr [JObj [(''id'', JStr ''p1'')]])])]),
      session_get = (\<lambda>sid. Resolves (JObj [(''data'', JObj [(''model'', JStr model)])])),
      session_messages =
        (\<lambda>sid. Resolves (JObj [(''data'',
           JArr [JObj [(''info'', JObj [(''role'', JStr ''user'')]),
                       (''parts'', JArr [JObj [(''type'', JStr ''text''), (''text'', JStr ''hi'')]])]])])),
      session_prompt = (\<lambda>sid. Resolves JNull),
      session_update = (\<lambda>sid. Resolves JNull),
      tui_showToast = Resolves JNull,
      tui_showConfirm = None,
      bun_write = Resolves JNull\<rparr>"

definition demo_state :: plugin_state where
  "demo_state =
     \<lparr>config = Some demo_config,
      configPath = Some ''/w/.opencode/credit-switcher.json'',
      statePath = Some ''/w/.opencode/credit-switcher.state.json'',
      stateData = Some \<lparr>sessions = [], lastCheckAt = 0\<rparr>,
      attemptedSessions = {}\<rparr>"

text \<open>The same with the providers p1 and p2 required.\<close>

definition licensed_config :: config where
  "licensed_config = demo_config\<lparr>requireProviders := [''p1'', ''p2'']\<rparr>"

text \<open>
  The same with confirmation before the fallback switched on, and a host that answers
  the confirmation prompt with \<open>r\<close>.
\<close>

definition asking_config :: config where
  "asking_config = demo_config\<lparr>confirmOnFallback := True\<rparr>"

definition asking_state :: plugin_state where
  "asking_state = demo_state\<lparr>config := Some asking_config\<rparr>"

definition answering_host :: "response \<Rightarrow> host" where
  "answering_host r = (demo_host ''p1/m1'')\<lparr>tui_showConfirm := Some r\<rparr>"

text \<open>
  A record of a fallback at time 1000 from p1/m1 to p2/m2, and a state that holds it for
  the session s1. The interval of the examples is one hour, 3600000 ms.
\<close>

definition demo_record :: FallbackRecord where
  "demo_record =
     \<lparr>exhaustedAt = Some 1000,
      lastFallbackAt = Some 1000,
      originalModel = Some ''p1/m1'',
      rec_fallbackModel = Some ''p2/m2'',
      restoredAt = None,
      lastRestoreAttemptAt = None\<rparr>"

definition state_with :: "FallbackRecord \<Rightarrow> plugin_state" where
  "state_with r = demo_state\<lparr>stateData := Some \<lparr>sessions = [(''s1'', r)], lastCheckAt = 0\<rparr>\<rparr>"

section \<open>Properties\<close>

subsection \<open>Strings and model references\<close>

lemma lower_char_idem: "lower_char (lower_char c) = lower_char c"
  by (simp add: lower_char_def)

lemma toLowerCase_idem: "toLowerCase (toLowerCase s) = toLowerCase s"
  by (simp add: toLowerCase_def lower_char_idem)

lemma toLowerCase_Nil_iff: "toLowerCase s = [] \<longleftrightarrow> s = []"
  by (simp add: toLowerCase_def)

lemma js_includes_sublist: "js_includes t p \<longleftrightarrow> sublist p t"
  by (induction t) (auto simp: sublist_Cons_right)

lemma split_slash_not_Nil: "split_slash s \<noteq> []"
  by (induction s) (auto split: list.splits)

lemma join_split_slash: "join_with ''/'' (split_slash s) = s"
proof (induction s)
  case Nil
  show ?case by simp
next
  case (Cons c cs)
  obtain w ws where ws: "split_slash cs = w # ws"
    using split_slash_not_Nil [of cs] by (cases "split_slash cs") auto
  show ?case
  proof (cases "c = CHR ''/''")
    case True
    with Cons ws show ?thesis by simp
  next
    case False
    with Cons ws show ?thesis by (cases ws) auto
  qed
qed

lemma hd_split_slash: "CHR ''/'' \<notin> set (hd (split_slash s))"
  by (induction s) (auto split: list.splits)

lemma split_slash_append:
  "CHR ''/'' \<notin> set p \<Longrightarrow> split_slash (p @ CHR ''/'' # q) = p # split_slash q"
  by (induction p) auto

lemma join_with_Cons:
  "ws \<noteq> [] \<Longrightarrow> join_with sep (w # ws) = w @ sep @ join_with sep ws"
  by (cases ws) auto

text \<open>
  What \<^verbatim>\<open>parseModel\<close> accepts: a string with a slash; the provider id is what stands
  before the first slash, the model id all that follows it.
\<close>

lemma parseModel_SomeD:
  assumes "parseModel v = Some m"
  shows "\<exists>p q. v = JStr (p @ CHR ''/'' # q) \<and> CHR ''/'' \<notin> set p
           \<and> m = \<lparr>providerId = JStr p, modelId = JStr q\<rparr>"
proof -
  from assms obtain s where v: "v = JStr s" and s: "s \<noteq> []"
    by (auto simp: parseModel_def split: jsv.splits if_splits)
  from assms v s have len: "\<not> length (split_slash s) < 2"
    and m: "m = \<lparr>providerId = JStr (hd (split_slash s)),
                  modelId = JStr (join_with ''/'' (tl (split_slash s)))\<rparr>"
    by (auto simp: parseModel_def Let_def split: if_splits)
  from len obtain w ws where ws: "split_slash s = w # ws" "ws \<noteq> []"
    by (cases "split_slash s") auto
  have "s = join_with ''/'' (w # ws)"
    using join_split_slash [of s] ws by simp
  then have "s = w @ CHR ''/'' # join_with ''/'' ws"
    using ws(2) by (simp add: join_with_Cons)
  moreover have "CHR ''/'' \<notin> set w"
    using hd_split_slash [of s] ws by simp
  ultimately show ?thesis
    using v m ws by auto
qed

lemma parseModel_slash:
  assumes "CHR ''/'' \<notin> set p"
  shows "parseModel (JStr (p @ CHR ''/'' # q)) = Some \<lparr>providerId = JStr p, modelId = JStr q\<rparr>"
proof -
  have sp: "split_slash (p @ CHR ''/'' # q) = p # split_slash q"
    using assms by (rule split_slash_append)
  have len: "\<not> length (p # split_slash q) < 2"
    using split_slash_not_Nil [of q] by (cases "split_slash q") auto
  show ?thesis
    unfolding parseModel_def using len
    by (simp add: sp join_split_slash Let_def del: split_slash.simps)
qed

lemma stored_or_modelToString:
  assumes "parseModel (JStr s) = Some m"
  shows "stored_or (modelToString (Some m)) (JStr s) = JStr s"
  using parseModel_SomeD [OF assms]
  by (auto simp: stored_or_def modelToString_def)

lemma modelToString_parseModel:
  assumes "parseModel v = Some m" "modelToString (Some m) = Some s"
  shows "v = JStr s" "s \<noteq> []"
  using parseModel_SomeD [OF assms(1)] assms(2)
  by (auto simp: modelToString_def split: if_splits)

text \<open>
  C9. The fallback model goes from the Decision Engine to the Sweeper unchanged. Let the
  handler have parsed its configured fallback model into \<open>fb\<close> and written the record
  \<open>new_record now original fb\<close>. A sweep under the same configuration parses the
  record's fallback model back into \<open>fb\<close>; whenever the record holds a string for it
  (both ids non-empty), a sweep under any configuration does; and a record whose
  fallback model is the string p2/m2 is parsed into exactly provider id p2 and model
  id m2.
\<close>

theorem fallback_model_round_trip:
  assumes "parseModel (fallbackModel cfg) = Some fb"
  shows "record_fallback cfg (new_record now original fb) = Some fb
       \<and> (\<forall>s cfg'. rec_fallbackModel (new_record now original fb) = Some s
             \<longrightarrow> record_fallback cfg' (new_record now original fb) = Some fb)
       \<and> (\<forall>cfg' (r :: FallbackRecord). rec_fallbackModel r = Some ''p2/m2''
             \<longrightarrow> record_fallback cfg' r = Some \<lparr>providerId = JStr ''p2'', modelId = JStr ''m2''\<rparr>)"
proof (intro conjI allI impI)
  from parseModel_SomeD [OF assms] obtain s where s: "fallbackModel cfg = JStr s"
    by auto
  show "record_fallback cfg (new_record now original fb) = Some fb"
    using assms stored_or_modelToString [of s fb] s
    by (simp add: record_fallback_def new_record_def)
next
  fix s cfg'
  assume "rec_fallbackModel (new_record now original fb) = Some s"
  then have str: "modelToString (Some fb) = Some s"
    by (simp add: new_record_def)
  from modelToString_parseModel [OF assms str] assms
  show "record_fallback cfg' (new_record now original fb) = Some fb"
    using str by (simp add: record_fallback_def new_record_def stored_or_def)
next
  fix cfg' and r :: FallbackRecord
  assume "rec_fallbackModel r = Some ''p2/m2''"
  then show "record_fallback cfg' r = Some \<lparr>providerId = JStr ''p2'', modelId = JStr ''m2''\<rparr>"
    using parseModel_slash [of "''p2''" "''m2''"]
    by (simp add: record_fallback_def stored_or_def)
qed

theorem fallback_model_round_trip_witness:
  "parseModel (fallbackModel demo_config) = Some \<lparr>providerId = JStr ''p2'', modelId = JStr ''m2''\<rparr>
   \<and> rec_fallbackModel (new_record 1000 None \<lparr>providerId = JStr ''p2'', modelId = JStr ''m2''\<rparr>)
       = Some ''p2/m2''
   \<and> record_fallback demo_config (new_record 1000 None \<lparr>providerId = JStr ''p2'', modelId = JStr ''m2''\<rparr>)
       = Some \<lparr>providerId = JStr ''p2'', modelId = JStr ''m2''\<rparr>"
proof -
  have p: "parseModel (fallbackModel demo_config)
             = Some \<lparr>providerId = JStr ''p2'', modelId = JStr ''m2''\<rparr>"
    using parseModel_slash [of "''p2''" "''m2''"] by (simp add: demo_config_def)
  have w: "rec_fallbackModel (new_record 1000 None \<lparr>providerId = JStr ''p2'', modelId = JStr ''m2''\<rparr>)
             = Some ''p2/m2''"
    by (simp add: new_record_def modelToString_def)
  from fallback_model_round_trip [OF p, of 1000 None] p w show ?thesis
    by blast
qed

subsection \<open>The paths of the event handler\<close>

lemma getSessionModel_trace: "snd (getSessionModel h sid) = [SessionGet sid]"
  by (simp add: getSessionModel_def Let_def split: response.splits)


lemma getProviders_trace: "snd (getProviders h) = [ConfigProviders]"
  by (simp add: getProviders_def Let_def split: response.splits)

lemma hasRequiredProviders_trace:
  "list_all (\<lambda>c. \<not> is_fallback_action c) (snd (hasRequiredProviders h cfg))"
proof -
  obtain ps t where g: "getProviders h = (ps, t)" by (cases "getProviders h")
  with getProviders_trace [of h] have "t = [ConfigProviders]" by simp
  with g show ?thesis
    by (simp add: hasRequiredProviders_def Let_def split: jsv.splits)
qed

text \<open>The licensing check throws nothing but a TypeError.\<close>

lemma hasRequiredProviders_error:
  "hasRequiredProviders h cfg = (Inl e, t) \<Longrightarrow> \<exists>s. e = TypeError s"
proof -
  obtain ps t' where g: "getProviders h = (ps, t')" by (cases "getProviders h")
  assume "hasRequiredProviders h cfg = (Inl e, t)"
  with g show ?thesis
    by (cases ps) (auto simp: hasRequiredProviders_def Let_def split: if_splits)
qed




text \<open>
  C1. The claim is that no failure of a host call leaves the event handler. The prompt is
  sent outside any try/catch: on the host that answers every other call and rejects
  \<^verbatim>\<open>client.session.prompt\<close>, the handler, given the 429 event of session s1, throws
  that rejection to its caller, after it has marked the session attempted and written
  the record.
\<close>

theorem prompt_rejection_leaves_handler:
  "fst (event_handler num ((demo_host ''p1/m1'')\<lparr>session_prompt := (\<lambda>sid. Rejects)\<rparr>) 5000
          demo_event demo_state)
     = Threw (Rejected ''client.session.prompt'')"
  by code_simp

theorem prompt_rejection_leaves_handler_witness:
  "offered (fst (event_handler integer_Number ((demo_host ''p1/m1'')\<lparr>session_prompt := (\<lambda>sid. Rejects)\<rparr>) 5000
                   demo_event demo_state))
   \<and> fst (event_handler integer_Number ((demo_host ''p1/m1'')\<lparr>session_prompt := (\<lambda>sid. Rejects)\<rparr>) 5000
              demo_event demo_state) \<noteq> Completed"
  using prompt_rejection_leaves_handler by simp



















text \<open>
  A run on its own is the two moves of its arrival and its resumption: the process of
  overlapping runs contains the handler as it is run without overlap.
\<close>

lemma run_without_overlap:
  "case event_handler num h now ev st of
     (out, st', t) \<Rightarrow>
       run_moves num \<lparr>shared = st, waiting = [], calls = []\<rparr> [Arrives ev, Resumes 0 h now]
         = \<lparr>shared = st', waiting = [], calls = t\<rparr>"
proof (cases "handler_guards num ev st")
  case (Inl r)
  obtain out t where "r = (out, t)" by (cases r)
  with Inl show ?thesis
    by (simp add: run_moves_def event_handler_def)
next
  case (Inr r)
  obtain cfg sid where "r = (cfg, sid)" by (cases r)
  with Inr show ?thesis
    by (simp add: run_moves_def event_handler_def split: prod.splits)
qed


subsection \<open>The classifier\<close>

lemma trim_Nil: "trim [] = []"
  by (simp add: trim_def)

lemma first_string_SomeD: "first_string vs = Some s \<Longrightarrow> trim s \<noteq> []"
  by (induction vs rule: first_string.induct) (auto split: if_splits)

lemma first_string_nonempty: "first_string vs = Some s \<Longrightarrow> s \<noteq> []"
  using first_string_SomeD [of vs s] trim_Nil by auto

lemma extractCode_nonempty: "extractCode ev = Some c \<Longrightarrow> c \<noteq> []"
  by (auto simp: extractCode_def dest: first_string_SomeD)

lemma extractText_obj: "extractText (JObj fs) \<noteq> []"
  by (auto simp: extractText_def toLowerCase_Nil_iff split: option.splits dest: first_string_nonempty)

lemma extractText_lower: "toLowerCase (extractText ev) = extractText ev"
  by (simp add: extractText_def toLowerCase_idem toLowerCase_Nil_iff split: option.splits)

lemma handler_not_exhausted:
  "config st = Some cfg \<Longrightarrow> \<not> isCreditExhausted num ev cfg \<Longrightarrow>
   snd (event_handler num h now ev st) = (st, [])"
  by (simp add: event_handler_def handler_guards_def)

text \<open>
  C3. For every event (an object), every configuration and whatever the runtime's
  \<^verbatim>\<open>Number\<close> makes of strings, \<^verbatim>\<open>isCreditExhausted\<close> is true
  exactly when the status taken from the event is in the configured set, or the error
  code taken from it equals a configured code up to case, or the message text taken from
  it contains a configured substring up to case; and when none of the three holds, the
  handler leaves the state as it is and calls nothing.
\<close>

theorem classifier_is_trigger_condition:
  "(isCreditExhausted num (JObj fs) cfg \<longleftrightarrow>
      trigger_condition (extractStatus num (JObj fs)) (extractCode (JObj fs)) (extractText (JObj fs)) cfg)
   \<and> (config st = Some cfg
        \<and> \<not> trigger_condition (extractStatus num (JObj fs)) (extractCode (JObj fs))
              (extractText (JObj fs)) cfg
      \<longrightarrow> snd (event_handler num h now (JObj fs) st) = (st, []))"
proof -
  have iff: "isCreditExhausted num (JObj fs) cfg \<longleftrightarrow>
      trigger_condition (extractStatus num (JObj fs)) (extractCode (JObj fs)) (extractText (JObj fs)) cfg"
    using extractText_obj [of fs] extractText_lower [of "JObj fs"]
    by (cases "extractCode (JObj fs)")
       (auto simp: isCreditExhausted_def trigger_condition_def Let_def list_ex_iff
          js_includes_sublist dest: extractCode_nonempty)
  then show ?thesis
    using handler_not_exhausted [where st = st and cfg = cfg and ev = "JObj fs" and h = h and now = now] by blast
qed

theorem classifier_is_trigger_condition_witness:
  "isCreditExhausted integer_Number demo_event demo_config
   \<and> \<not> isCreditExhausted integer_Number other_event demo_config
   \<and> snd (event_handler integer_Number (demo_host ''p1/m1'') 5000 other_event demo_state) = (demo_state, [])"
proof -
  have a: "isCreditExhausted integer_Number demo_event demo_config" by code_simp
  have b: "\<not> isCreditExhausted integer_Number other_event demo_config" by code_simp
  have c: "config demo_state = Some demo_config" by (simp add: demo_state_def)
  from b c classifier_is_trigger_condition [where cfg = demo_config and st = demo_state and h = "demo_host ''p1/m1''" and now = 5000]
  have "snd (event_handler integer_Number (demo_host ''p1/m1'') 5000 other_event demo_state) = (demo_state, [])"
    unfolding other_event_def by blast
  with a b show ?thesis by simp
qed

text \<open>
  The classifier follows the runtime on a status that is a string: on a runtime that
  reads 429.0 as 429 the first event is a credit exhaustion, and on one that reads 0.5
  as a half the second event has the status a half, so that its top-level 429 is never
  looked at. The two events of the other examples carry a number, and no conversion of
  strings takes part in what the handler makes of them.
\<close>

lemma string_status_follows_runtime:
  assumes "to_number ''429.0'' = Some 429"
  shows "extractStatus to_number string_status_event = Some 429"
    and "isCreditExhausted to_number string_status_event demo_config"
proof -
  show s: "extractStatus to_number string_status_event = Some 429"
    using assms by (simp add: extractStatus_def string_status_event_def)
  then show "isCreditExhausted to_number string_status_event demo_config"
    by (simp add: isCreditExhausted_def Let_def demo_config_def)
qed

lemma fraction_status_stops_search:
  assumes "to_number ''0.5'' = Some (1 / 2)"
  shows "extractStatus to_number fraction_first_event = Some (1 / 2)"
    and "\<not> isCreditExhausted to_number fraction_first_event demo_config"
proof -
  show s: "extractStatus to_number fraction_first_event = Some (1 / 2)"
    using assms by (simp add: extractStatus_def fraction_first_event_def)
  have c: "extractCode fraction_first_event = None" by code_simp
  have t: "extractText fraction_first_event = ''internal error''" by code_simp
  have m: "\<not> list_ex (\<lambda>v. js_includes ''internal error'' (toLowerCase v)) (onMessageMatches demo_config)"
    by code_simp
  have o: "onStatus demo_config = [402, 429]" by (simp add: demo_config_def)
  have h: "(1 / 2 :: rat) \<noteq> 402" "(1 / 2 :: rat) \<noteq> 429" by simp_all
  from s c t m o h show "\<not> isCreditExhausted to_number fraction_first_event demo_config"
    by (simp add: isCreditExhausted_def Let_def)
qed

lemma examples_consult_no_conversion:
  "handler_guards num demo_event st = handler_guards num' demo_event st"
  "handler_guards num other_event st = handler_guards num' other_event st"
  "event_handler num h now demo_event st = event_handler num' h now demo_event st"
  "event_handler num h now other_event st = event_handler num' h now other_event st"
proof -
  have s: "extractStatus num demo_event = Some 429" "extractStatus num other_event = Some 500"
    for num
    by (simp_all add: extractStatus_def demo_event_def other_event_def)
  have i: "isCreditExhausted num demo_event cfg = isCreditExhausted num' demo_event cfg"
    "isCreditExhausted num other_event cfg = isCreditExhausted num' other_event cfg"
    for cfg
    by (simp_all add: isCreditExhausted_def s)
  show g: "handler_guards num demo_event st = handler_guards num' demo_event st"
    "handler_guards num other_event st = handler_guards num' other_event st"
    unfolding handler_guards_def i by (rule refl)+
  then show "event_handler num h now demo_event st = event_handler num' h now demo_event st"
    "event_handler num h now other_event st = event_handler num' h now other_event st"
    by (simp_all add: event_handler_def)
qed

subsection \<open>Licensing, the provider guard and the confirmation\<close>

lemma handler_guard:
  "quiet st (event_handler num h now ev st)
   \<or> (\<exists>cfg sid. config st = Some cfg \<and> extractSessionId ev = Some sid
          \<and> event_handler num h now ev st = fallback_attempt h now cfg st sid)"
  by (auto simp: event_handler_def handler_guards_def quiet_def safeLog_def split: option.splits)

lemma provider_listed_ids:
  "provider_listed ps r \<longleftrightarrow>
     toLowerCase r \<in> set (map (\<lambda>v. toLowerCase (js_String v)) (filter truthy (map provider_key ps)))"
  by (fastforce simp: provider_listed_def list_ex_iff image_iff)

lemma hasRequiredProviders_blocked:
  assumes "requireProviders cfg \<noteq> []" "fst (getProviders h) = JArr ps"
    "ps = [] \<or> (\<exists>r \<in> set (requireProviders cfg). \<not> provider_listed ps r)"
  shows "fst (hasRequiredProviders h cfg) \<noteq> Inr True"
proof -
  obtain t where g: "getProviders h = (JArr ps, t)"
    using assms(2) by (cases "getProviders h") auto
  show ?thesis
    using assms(1,3) g
    by (auto simp: hasRequiredProviders_def Let_def provider_listed_ids list_all_iff)
qed

lemma attempt_blocked:
  assumes "fst (hasRequiredProviders h cfg) \<noteq> Inr True"
  shows "quiet st (fallback_attempt h now cfg st sid)"
proof -
  obtain r1 t1 where p: "hasRequiredProviders h cfg = (r1, t1)"
    by (cases "hasRequiredProviders h cfg")
  have n1: "list_all (\<lambda>c. \<not> is_fallback_action c) t1"
    using hasRequiredProviders_trace [of h cfg] p by simp
  have n5: "\<not> offered (Threw e)" if "r1 = Inl e" for e
    using hasRequiredProviders_error [of h cfg e t1] p that by auto
  show ?thesis
    unfolding fallback_attempt_def p
    using assms p n1 n5
    by (cases r1) (auto simp: quiet_def safeLog_def)
qed

text \<open>
  C6. With a non-empty list of required provider ids, when the provider list the host
  returns is empty, or some required id is not listed in it up to case, the licensing
  check does not pass and the handler is quiet: no prompt, no model update, no state
  written, whatever the event. The witness is the case of the required providers p1 and
  p2 with only p1 available.
\<close>

theorem missing_provider_blocks_fallback:
  assumes "config st = Some cfg" "requireProviders cfg \<noteq> []"
    "fst (getProviders h) = JArr ps"
    "ps = [] \<or> (\<exists>r \<in> set (requireProviders cfg). \<not> provider_listed ps r)"
  shows "fst (hasRequiredProviders h cfg) \<noteq> Inr True \<and> quiet st (event_handler num h now ev st)"
proof -
  have b: "fst (hasRequiredProviders h cfg) \<noteq> Inr True"
    using assms(2-4) by (rule hasRequiredProviders_blocked)
  from handler_guard [where num = num and st = st and h = h and now = now and ev = ev]
  have "quiet st (event_handler num h now ev st)"
  proof
    assume "quiet st (event_handler num h now ev st)"
    then show ?thesis .
  next
    assume "\<exists>cfg sid. config st = Some cfg \<and> extractSessionId ev = Some sid
          \<and> event_handler num h now ev st = fallback_attempt h now cfg st sid"
    then obtain sid where "event_handler num h now ev st = fallback_attempt h now cfg st sid"
      using assms(1) by auto
    with attempt_blocked [OF b, where st = st and now = now and sid = sid] show ?thesis by simp
  qed
  with b show ?thesis by simp
qed


theorem missing_provider_blocks_fallback_witness:
  "requireProviders licensed_config = [''p1'', ''p2'']
   \<and> fst (getProviders (demo_host ''p1/m1'')) = JArr [JObj [(''id'', JStr ''p1'')]]
   \<and> fst (hasRequiredProviders (demo_host ''p1/m1'') licensed_config) \<noteq> Inr True
   \<and> quiet (demo_state\<lparr>config := Some licensed_config\<rparr>)
        (event_handler integer_Number (demo_host ''p1/m1'') 5000 demo_event (demo_state\<lparr>config := Some licensed_config\<rparr>))
   \<and> fst (event_handler integer_Number (demo_host ''p1/m1'') 5000 demo_event (demo_state\<lparr>config := Some licensed_config\<rparr>))
       = ProvidersMissing"
proof -
  have a: "config (demo_state\<lparr>config := Some licensed_config\<rparr>) = Some licensed_config" by simp
  have b: "requireProviders licensed_config = [''p1'', ''p2'']" by (simp add: licensed_config_def)
  then have b': "requireProviders licensed_config \<noteq> []" by simp
  have c: "fst (getProviders (demo_host ''p1/m1'')) = JArr [JObj [(''id'', JStr ''p1'')]]"
    by code_simp
  have d: "[JObj [(''id'', JStr ''p1'')]] = []
        \<or> (\<exists>r \<in> set (requireProviders licensed_config). \<not> provider_listed [JObj [(''id'', JStr ''p1'')]] r)"
  proof -
    have "\<not> provider_listed [JObj [(''id'', JStr ''p1'')]] ''p2''" by code_simp
    with b show ?thesis by simp
  qed
  have e: "fst (event_handler integer_Number (demo_host ''p1/m1'') 5000 demo_event (demo_state\<lparr>config := Some licensed_config\<rparr>))
       = ProvidersMissing"
    by code_simp
  from missing_provider_blocks_fallback [OF a b' c d, where now = 5000 and ev = demo_event] b c e
  show ?thesis by simp
qed

lemma attempt_mismatch:
  assumes "parseModel (primaryModel cfg) = Some p" "fst (getSessionModel h sid) = Some m"
    "truthy (providerId m)" "\<not> strict_eq (providerId m) (providerId p)"
  shows "quiet st (fallback_attempt h now cfg st sid)"
proof -
  obtain r1 t1 where p: "hasRequiredProviders h cfg = (r1, t1)"
    by (cases "hasRequiredProviders h cfg")
  obtain t2 where g: "getSessionModel h sid = (Some m, t2)"
    using assms(2) by (cases "getSessionModel h sid") auto
  have n1: "list_all (\<lambda>c. \<not> is_fallback_action c) t1"
    using hasRequiredProviders_trace [of h cfg] p by simp
  have n2: "t2 = [SessionGet sid]" using getSessionModel_trace [of h sid] g by simp
  have n5: "\<not> offered (Threw e)" if "r1 = Inl e" for e
    using hasRequiredProviders_error [of h cfg e t1] p that by auto
  have d: "provider_differs (Some p) (Some m)"
    using assms(3,4) by (simp add: provider_differs_def)
  show ?thesis
    unfolding fallback_attempt_def p g
    using assms(1) n1 n2 n5 d
    by (cases r1; cases "parseModel (fallbackModel cfg)") (auto simp: quiet_def safeLog_def)
qed

text \<open>
  C7, as amended. When the session's current model is known with a truthy (non-empty)
  provider id, the primary model is configured and parseable, and the two provider ids
  differ, the handler is quiet: it switches nothing, sends no prompt and writes no
  record. The witness is primary p1/m1, fallback p2/m2 and a session on p3/m3.
\<close>

theorem other_provider_blocks_fallback:
  assumes "config st = Some cfg" "parseModel (primaryModel cfg) = Some p"
    "extractSessionId ev = Some sid" "fst (getSessionModel h sid) = Some m"
    "truthy (providerId m)" "\<not> strict_eq (providerId m) (providerId p)"
  shows "quiet st (event_handler num h now ev st)"
  using handler_guard [where num = num and st = st and h = h and now = now and ev = ev]
proof
  assume "quiet st (event_handler num h now ev st)"
  then show ?thesis .
next
  assume "\<exists>cfg sid. config st = Some cfg \<and> extractSessionId ev = Some sid
        \<and> event_handler num h now ev st = fallback_attempt h now cfg st sid"
  then have "event_handler num h now ev st = fallback_attempt h now cfg st sid"
    using assms(1,3) by auto
  with attempt_mismatch [OF assms(2,4,5,6), where st = st and now = now] show ?thesis by simp
qed

theorem other_provider_blocks_fallback_witness:
  "parseModel (primaryModel demo_config) = Some \<lparr>providerId = JStr ''p1'', modelId = JStr ''m1''\<rparr>
   \<and> fst (getSessionModel (demo_host ''p3/m3'') ''s1'')
       = Some \<lparr>providerId = JStr ''p3'', modelId = JStr ''m3''\<rparr>
   \<and> quiet demo_state (event_handler integer_Number (demo_host ''p3/m3'') 5000 demo_event demo_state)
   \<and> fst (event_handler integer_Number (demo_host ''p3/m3'') 5000 demo_event demo_state) = ProviderMismatch"
proof -
  have a: "config demo_state = Some demo_config" by (simp add: demo_state_def)
  have b: "parseModel (primaryModel demo_config) = Some \<lparr>providerId = JStr ''p1'', modelId = JStr ''m1''\<rparr>"
    by code_simp
  have c: "extractSessionId demo_event = Some ''s1''" by code_simp
  have d: "fst (getSessionModel (demo_host ''p3/m3'') ''s1'')
       = Some \<lparr>providerId = JStr ''p3'', modelId = JStr ''m3''\<rparr>"
    by code_simp
  have e: "truthy (providerId \<lparr>providerId = JStr ''p3'', modelId = JStr ''m3''\<rparr>)" by simp
  have f: "\<not> strict_eq (providerId \<lparr>providerId = JStr ''p3'', modelId = JStr ''m3''\<rparr>)
                 (providerId \<lparr>providerId = JStr ''p1'', modelId = JStr ''m1''\<rparr>)" by simp
  have g: "fst (event_handler integer_Number (demo_host ''p3/m3'') 5000 demo_event demo_state) = ProviderMismatch"
    by code_simp
  from other_provider_blocks_fallback [OF a b c d e f, where now = 5000] b d g
  show ?thesis by simp
qed

text \<open>
  C7 as stated fails when the host reports the session's model as the string /m3: the
  current model is known, its provider id is the empty string and differs from p1, and
  the guard \<^verbatim>\<open>sessionModel.providerId\<close> lets the handler go on to send the prompt and
  write the record.
\<close>

theorem empty_provider_id_counterexample:
  "config demo_state = Some demo_config
   \<and> parseModel (primaryModel demo_config) = Some \<lparr>providerId = JStr ''p1'', modelId = JStr ''m1''\<rparr>
   \<and> extractSessionId demo_event = Some ''s1''
   \<and> fst (getSessionModel (demo_host ''/m3'') ''s1'')
       = Some \<lparr>providerId = JStr [], modelId = JStr ''m3''\<rparr>
   \<and> \<not> strict_eq (JStr []) (JStr ''p1'')
   \<and> fst (event_handler integer_Number (demo_host ''/m3'') 5000 demo_event demo_state) = Completed
   \<and> SessionPrompt ''s1'' \<lparr>providerId = JStr ''p2'', modelId = JStr ''m2''\<rparr>
        (JArr [JObj [(''type'', JStr ''text''), (''text'', JStr ''hi'')]])
       \<in> set (snd (snd (event_handler integer_Number (demo_host ''/m3'') 5000 demo_event demo_state)))
   \<and> map_option sessions (stateData (fst (snd (event_handler integer_Number (demo_host ''/m3'') 5000 demo_event demo_state))))
       = Some [(''s1'', \<lparr>exhaustedAt = Some 5000, lastFallbackAt = Some 5000,
                         originalModel = None, rec_fallbackModel = Some ''p2/m2'',
                         restoredAt = None, lastRestoreAttemptAt = None\<rparr>)]"
  by code_simp

lemma confirm_answer_no_boolean:
  "no_recognized_boolean (js_coalesce (js_get response ''data'') response) \<Longrightarrow> confirm_answer response"
proof -
  define payload where "payload = js_coalesce (js_get response ''data'') response"
  define confirmed where "confirmed =
                     js_coalesce (js_coalesce (js_coalesce (js_coalesce
                       (js_get payload ''confirmed'') (js_get payload ''accepted''))
                       (js_get payload ''value'')) (js_get payload ''ok''))
                       (js_get payload ''success'')"
  assume "no_recognized_boolean (js_coalesce (js_get response ''data'') response)"
  then have nb: "no_recognized_boolean payload" by (simp add: payload_def)
  then have 1: "\<not> is_boolean payload" by (simp add: no_recognized_boolean_def)
  from nb have 2: "\<not> is_boolean confirmed"
    by (simp add: no_recognized_boolean_def confirmed_def js_coalesce_def)
  have "confirm_answer response = (case payload of JBool b \<Rightarrow> b | _ \<Rightarrow> (case confirmed of JBool b \<Rightarrow> b | _ \<Rightarrow> True))"
    unfolding confirm_answer_def Let_def confirmed_def payload_def by (rule refl)
  with 1 2 show ?thesis
    by (cases payload; cases confirmed) simp_all
qed

lemma confirmFallback_accepts:
  assumes "confirmOnFallback cfg" "tui_showConfirm h = Some r"
    "r = Rejects \<or> (\<exists>resp. r = Resolves resp
        \<and> no_recognized_boolean (js_coalesce (js_get resp ''data'') resp))"
  shows "\<exists>t. confirmFallback h cfg sid = (True, t)
          \<and> filter not_confirm_log t = [ShowConfirm ''Credits exhausted. Retry with fallback model?'']"
  using assms
  by (auto simp: confirmFallback_def safeLog_def not_confirm_log_def dest: confirm_answer_no_boolean)

lemma confirmFallback_true:
  assumes "confirmOnFallback cfg"
  shows "confirmFallback (h\<lparr>tui_showConfirm := Some (Resolves (JBool True))\<rparr>) cfg sid
         = (True, [ShowConfirm ''Credits exhausted. Retry with fallback model?''])"
  using assms by (simp add: confirmFallback_def confirm_answer_def js_coalesce_def)

lemma other_fields_same:
  "config_providers (h\<lparr>tui_showConfirm := x\<rparr>) = config_providers h"
  "session_get (h\<lparr>tui_showConfirm := x\<rparr>) = session_get h"
  "session_messages (h\<lparr>tui_showConfirm := x\<rparr>) = session_messages h"
  "session_prompt (h\<lparr>tui_showConfirm := x\<rparr>) = session_prompt h"
  "tui_showToast (h\<lparr>tui_showConfirm := x\<rparr>) = tui_showToast h"
  "bun_write (h\<lparr>tui_showConfirm := x\<rparr>) = bun_write h"
  by simp_all

lemma other_calls_same:
  "hasRequiredProviders (h\<lparr>tui_showConfirm := x\<rparr>) cfg = hasRequiredProviders h cfg"
  "getSessionModel (h\<lparr>tui_showConfirm := x\<rparr>) sid = getSessionModel h sid"
  "getLastUserMessage (h\<lparr>tui_showConfirm := x\<rparr>) sid = getLastUserMessage h sid"
  "retry_with_fallback (h\<lparr>tui_showConfirm := x\<rparr>) now cfg st sid primary fb sm msg
     = retry_with_fallback h now cfg st sid primary fb sm msg"
  unfolding hasRequiredProviders_def getProviders_def getSessionModel_def
    getLastUserMessage_def retry_with_fallback_def saveState_def other_fields_same
  by (rule refl)+

lemma attempt_as_if_confirmed:
  assumes "confirmOnFallback cfg" "tui_showConfirm h = Some r"
    "r = Rejects \<or> (\<exists>resp. r = Resolves resp
        \<and> no_recognized_boolean (js_coalesce (js_get resp ''data'') resp))"
  shows "observed (fallback_attempt h now cfg st sid)
         = observed (fallback_attempt (h\<lparr>tui_showConfirm := Some (Resolves (JBool True))\<rparr>) now cfg st sid)"
proof -
  obtain t4 where c: "confirmFallback h cfg sid = (True, t4)"
    and f: "filter not_confirm_log t4 = [ShowConfirm ''Credits exhausted. Retry with fallback model?'']"
    using confirmFallback_accepts [OF assms, of sid] by blast
  have c': "confirmFallback (h\<lparr>tui_showConfirm := Some (Resolves (JBool True))\<rparr>) cfg sid
         = (True, [ShowConfirm ''Credits exhausted. Retry with fallback model?''])"
    using assms(1) by (rule confirmFallback_true)
  obtain r1 t1 where p: "hasRequiredProviders h cfg = (r1, t1)"
    by (cases "hasRequiredProviders h cfg")
  obtain sm t2 where g: "getSessionModel h sid = (sm, t2)"
    by (cases "getSessionModel h sid")
  obtain msg t3 where m: "getLastUserMessage h sid = (msg, t3)"
    by (cases "getLastUserMessage h sid")
  obtain out5 st5 t5 where r: "retry_with_fallback h now cfg st sid (parseModel (primaryModel cfg))
      (the (parseModel (fallbackModel cfg))) sm (the msg) = (out5, st5, t5)"
    by (metis prod_cases3)
  show ?thesis
    unfolding fallback_attempt_def other_calls_same p g m c c'
    using f r
    by (cases r1; cases "parseModel (fallbackModel cfg)"; cases msg)
       (auto simp: Let_def observed_def not_confirm_log_def)
qed

text \<open>
  C10. With confirmation switched on and a host that can ask: when the prompt throws, or
  its payload is no boolean and carries no boolean under confirmed, accepted, value, ok
  or success, \<^verbatim>\<open>confirmFallback\<close> returns true, and the handler ends in the same
  outcome and state, with the same calls but the debug log of the failure, as on a host
  whose prompt answers true.
\<close>

theorem unreadable_confirmation_is_acceptance:
  assumes "confirmOnFallback cfg" "tui_showConfirm h = Some r"
    "r = Rejects \<or> (\<exists>resp. r = Resolves resp
        \<and> no_recognized_boolean (js_coalesce (js_get resp ''data'') resp))"
  shows "fst (confirmFallback h cfg sid)
       \<and> (config st = Some cfg \<longrightarrow>
            observed (event_handler num h now ev st)
            = observed (event_handler num (h\<lparr>tui_showConfirm := Some (Resolves (JBool True))\<rparr>) now ev st))"
proof
  show "fst (confirmFallback h cfg sid)"
    using confirmFallback_accepts [OF assms, of sid] by auto
next
  show "config st = Some cfg \<longrightarrow>
            observed (event_handler num h now ev st)
            = observed (event_handler num (h\<lparr>tui_showConfirm := Some (Resolves (JBool True))\<rparr>) now ev st)"
  proof
    assume cf: "config st = Some cfg"
    show "observed (event_handler num h now ev st)
            = observed (event_handler num (h\<lparr>tui_showConfirm := Some (Resolves (JBool True))\<rparr>) now ev st)"
      using attempt_as_if_confirmed [OF assms, where now = now and st = st] cf
      by (simp add: event_handler_def handler_guards_def split: option.splits)
  qed
qed

theorem unreadable_confirmation_is_acceptance_witness:
  "confirmOnFallback asking_config
   \<and> tui_showConfirm (answering_host Rejects) = Some Rejects
   \<and> fst (confirmFallback (answering_host Rejects) asking_config ''s1'')
   \<and> fst (confirmFallback (answering_host (Resolves (JObj [(''data'', JObj [(''choice'', JStr ''no'')])])))
            asking_config ''s1'')
   \<and> fst (event_handler integer_Number (answering_host Rejects) 5000 demo_event asking_state) = Completed"
proof -
  have a: "confirmOnFallback asking_config" by (simp add: asking_config_def)
  have b: "tui_showConfirm (answering_host Rejects) = Some Rejects" by (simp add: answering_host_def)
  have c: "Rejects = Rejects \<or> (\<exists>resp. Rejects = Resolves resp
        \<and> no_recognized_boolean (js_coalesce (js_get resp ''data'') resp))" by simp
  have b2: "tui_showConfirm (answering_host (Resolves (JObj [(''data'', JObj [(''choice'', JStr ''no'')])])))
      = Some (Resolves (JObj [(''data'', JObj [(''choice'', JStr ''no'')])]))"
    by (simp add: answering_host_def)
  have n: "no_recognized_boolean (js_coalesce (js_get (JObj [(''data'', JObj [(''choice'', JStr ''no'')])]) ''data'')
            (JObj [(''data'', JObj [(''choice'', JStr ''no'')])]))"
    by code_simp
  then have c2: "Resolves (JObj [(''data'', JObj [(''choice'', JStr ''no'')])]) = Rejects
     \<or> (\<exists>resp. Resolves (JObj [(''data'', JObj [(''choice'', JStr ''no'')])]) = Resolves resp
        \<and> no_recognized_boolean (js_coalesce (js_get resp ''data'') resp))" by blast
  have d: "fst (event_handler integer_Number (answering_host Rejects) 5000 demo_event asking_state) = Completed"
    by code_simp
  from unreadable_confirmation_is_acceptance [OF a b c, where sid = "''s1''"]
       unreadable_confirmation_is_acceptance [OF a b2 c2, where sid = "''s1''"]
       a b d
  show ?thesis by simp
qed

subsection \<open>The restore sweep\<close>

lemma restore_loop_map:
  "restore_loop h cfg now thr es
     = (map (\<lambda>e. (fst e, fst (restore_record h cfg now thr (fst e) (snd e)))) es,
        concat (map (\<lambda>e. snd (restore_record h cfg now thr (fst e) (snd e))) es))"
proof (induction es)
  case Nil
  show ?case by simp
next
  case (Cons e es)
  obtain sid r where e: "e = (sid, r)" by (cases e)
  with Cons show ?case by (simp add: case_prod_unfold Let_def)
qed

lemma restore_loop_nth:
  "i < length es \<Longrightarrow>
     fst (restore_loop h cfg now thr es) ! i
       = (fst (es ! i), fst (restore_record h cfg now thr (fst (es ! i)) (snd (es ! i))))"
  by (simp add: restore_loop_map)

lemma restore_loop_length: "length (fst (restore_loop h cfg now thr es)) = length es"
  by (simp add: restore_loop_map)

lemma restore_loop_trace:
  "c \<in> set (snd (restore_loop h cfg now thr es))
     \<longleftrightarrow> (\<exists>e \<in> set es. c \<in> set (snd (restore_record h cfg now thr (fst e) (snd e))))"
  by (auto simp: restore_loop_map)

lemma sweep_begin_limited:
  assumes "stateData st = Some sd" "now - lastCheckAt sd < threshold_of iv"
  shows "sweep_begin now iv st = None"
  using assms by (simp add: sweep_begin_def Let_def split: option.splits)

lemma sweep_begin_proceeds:
  assumes "config st = Some cfg" "restore_enabled cfg" "stateData st = Some sd"
    "\<not> now - lastCheckAt sd < threshold_of iv"
  shows "sweep_begin now iv st = Some (sd\<lparr>lastCheckAt := now\<rparr>, cfg, threshold_of iv)"
  using assms by (simp add: sweep_begin_def Let_def)

lemma sweep_begin_SomeD:
  assumes "sweep_begin now iv st = Some (sd1, cfg, thr)" "stateData st = Some sd"
  shows "config st = Some cfg \<and> restore_enabled cfg \<and> \<not> now - lastCheckAt sd < threshold_of iv
         \<and> sd1 = sd\<lparr>lastCheckAt := now\<rparr> \<and> thr = threshold_of iv"
  using assms by (auto simp: sweep_begin_def Let_def split: option.splits if_splits)

lemma runRestoreCheck_proceeds:
  assumes "config st = Some cfg" "restore_enabled cfg" "stateData st = Some sd"
    "\<not> now - lastCheckAt sd < threshold_of iv"
  shows "runRestoreCheck h now iv st
         = (st\<lparr>stateData := Some (sd\<lparr>lastCheckAt := now,
                    sessions := fst (restore_loop h cfg now (threshold_of iv) (sessions sd))\<rparr>)\<rparr>,
            snd (restore_loop h cfg now (threshold_of iv) (sessions sd))
            @ saveState h (statePath st)
                (sd\<lparr>lastCheckAt := now,
                    sessions := fst (restore_loop h cfg now (threshold_of iv) (sessions sd))\<rparr>))"
  using sweep_begin_proceeds [OF assms]
  by (simp add: runRestoreCheck_def Let_def split: prod.splits)

lemma runRestoreCheck_limited:
  assumes "stateData st = Some sd" "now - lastCheckAt sd < threshold_of iv"
  shows "runRestoreCheck h now iv st = (st, [])"
  using sweep_begin_limited [OF assms] by (simp add: runRestoreCheck_def)

text \<open>
  C5. A sweep invoked less than one interval after \<open>lastCheckAt\<close> returns at once: it
  does not get to the loop, the state is the same and nothing is called. A sweep that
  proceeds enters its loop with the persisted state \<open>sd1\<close>, which is the state it
  found with \<open>lastCheckAt\<close> already set to its own time and every record as it was;
  whatever the loop has made of the records by some moment, a sweep invoked at that
  moment less than one interval later returns at once, and so does one invoked on the
  state the sweep ends with.
\<close>

theorem sweep_rate_limit:
  assumes "stateData st = Some sd"
  shows "(now - lastCheckAt sd < threshold_of iv \<longrightarrow>
            sweep_begin now iv st = None \<and> runRestoreCheck h now iv st = (st, []))
    \<and> (\<forall>sd1 cfg thr. sweep_begin now iv st = Some (sd1, cfg, thr) \<longrightarrow>
          sd1 = sd\<lparr>lastCheckAt := now\<rparr>
          \<and> (\<forall>es h' now'. now' - now < threshold_of iv \<longrightarrow>
                 sweep_begin now' iv (st\<lparr>stateData := Some (sd1\<lparr>sessions := es\<rparr>)\<rparr>) = None
                 \<and> runRestoreCheck h' now' iv (st\<lparr>stateData := Some (sd1\<lparr>sessions := es\<rparr>)\<rparr>)
                     = (st\<lparr>stateData := Some (sd1\<lparr>sessions := es\<rparr>)\<rparr>, []))
          \<and> (\<exists>es. fst (runRestoreCheck h now iv st) = st\<lparr>stateData := Some (sd1\<lparr>sessions := es\<rparr>)\<rparr>)
          \<and> (\<forall>h' now'. now' - now < threshold_of iv \<longrightarrow>
                 runRestoreCheck h' now' iv (fst (runRestoreCheck h now iv st))
                   = (fst (runRestoreCheck h now iv st), [])))"
proof (intro conjI impI allI)
  assume l: "now - lastCheckAt sd < threshold_of iv"
  from assms l show "sweep_begin now iv st = None" by (rule sweep_begin_limited)
  from assms l show "runRestoreCheck h now iv st = (st, [])" by (rule runRestoreCheck_limited)
next
  fix sd1 cfg thr
  assume b: "sweep_begin now iv st = Some (sd1, cfg, thr)"
  from sweep_begin_SomeD [OF b assms]
  show "sd1 = sd\<lparr>lastCheckAt := now\<rparr>" by simp
next
  fix sd1 cfg thr es h' now'
  assume b: "sweep_begin now iv st = Some (sd1, cfg, thr)" and n: "now' - now < threshold_of iv"
  from sweep_begin_SomeD [OF b assms] have sd1: "sd1 = sd\<lparr>lastCheckAt := now\<rparr>" by simp
  have sdat: "stateData (st\<lparr>stateData := Some (sd1\<lparr>sessions := es\<rparr>)\<rparr>) = Some (sd1\<lparr>sessions := es\<rparr>)"
    by simp
  have lim: "now' - lastCheckAt (sd1\<lparr>sessions := es\<rparr>) < threshold_of iv"
    using n sd1 by simp
  from sdat lim
  show "sweep_begin now' iv (st\<lparr>stateData := Some (sd1\<lparr>sessions := es\<rparr>)\<rparr>) = None"
    by (rule sweep_begin_limited)
  from sdat lim
  show "runRestoreCheck h' now' iv (st\<lparr>stateData := Some (sd1\<lparr>sessions := es\<rparr>)\<rparr>)
          = (st\<lparr>stateData := Some (sd1\<lparr>sessions := es\<rparr>)\<rparr>, [])"
    by (rule runRestoreCheck_limited)
next
  fix sd1 cfg thr
  assume b: "sweep_begin now iv st = Some (sd1, cfg, thr)"
  from sweep_begin_SomeD [OF b assms] have d: "config st = Some cfg" "restore_enabled cfg"
    "\<not> now - lastCheckAt sd < threshold_of iv" "sd1 = sd\<lparr>lastCheckAt := now\<rparr>" by simp_all
  from runRestoreCheck_proceeds [OF d(1,2) assms d(3), where h = h] d(4)
  have f: "fst (runRestoreCheck h now iv st)
         = st\<lparr>stateData := Some (sd1\<lparr>sessions := fst (restore_loop h cfg now (threshold_of iv) (sessions sd))\<rparr>)\<rparr>"
    by simp
  then show "\<exists>es. fst (runRestoreCheck h now iv st) = st\<lparr>stateData := Some (sd1\<lparr>sessions := es\<rparr>)\<rparr>"
    by blast
next
  fix sd1 cfg thr h' now'
  assume b: "sweep_begin now iv st = Some (sd1, cfg, thr)" and n: "now' - now < threshold_of iv"
  from sweep_begin_SomeD [OF b assms] have d: "config st = Some cfg" "restore_enabled cfg"
    "\<not> now - lastCheckAt sd < threshold_of iv" "sd1 = sd\<lparr>lastCheckAt := now\<rparr>" by simp_all
  let ?sd2 = "sd\<lparr>lastCheckAt := now,
                 sessions := fst (restore_loop h cfg now (threshold_of iv) (sessions sd))\<rparr>"
  from runRestoreCheck_proceeds [OF d(1,2) assms d(3), where h = h]
  have f: "fst (runRestoreCheck h now iv st) = st\<lparr>stateData := Some ?sd2\<rparr>"
    by simp
  have "runRestoreCheck h' now' iv (st\<lparr>stateData := Some ?sd2\<rparr>) = (st\<lparr>stateData := Some ?sd2\<rparr>, [])"
    using n by (intro runRestoreCheck_limited [where sd = ?sd2]) simp_all
  with f show "runRestoreCheck h' now' iv (fst (runRestoreCheck h now iv st))
                   = (fst (runRestoreCheck h now iv st), [])"
    by simp
qed

theorem sweep_rate_limit_witness:
  "sweep_begin 10000000 3600000 (state_with demo_record)
     = Some (\<lparr>sessions = [(''s1'', demo_record)], lastCheckAt = 10000000\<rparr>, demo_config, 3600000)
   \<and> (10001000 :: int) - 10000000 < threshold_of 3600000
   \<and> map_option lastCheckAt
        (stateData (fst (runRestoreCheck (demo_host ''p2/m2'') 10000000 3600000 (state_with demo_record))))
       = Some 10000000
   \<and> runRestoreCheck (demo_host ''p2/m2'') 10001000 3600000
        (fst (runRestoreCheck (demo_host ''p2/m2'') 10000000 3600000 (state_with demo_record)))
       = (fst (runRestoreCheck (demo_host ''p2/m2'') 10000000 3600000 (state_with demo_record)), [])"
proof -
  let ?sd = "\<lparr>sessions = [(''s1'', demo_record)], lastCheckAt = 0\<rparr>"
  let ?sd1 = "\<lparr>sessions = [(''s1'', demo_record)], lastCheckAt = 10000000\<rparr>"
  have a: "stateData (state_with demo_record) = Some ?sd" by (simp add: state_with_def)
  have b: "sweep_begin 10000000 3600000 (state_with demo_record) = Some (?sd1, demo_config, 3600000)"
    by (simp add: sweep_begin_def state_with_def demo_state_def demo_config_def threshold_of_def)
  have e: "(10001000 :: int) - 10000000 < threshold_of 3600000" by (simp add: threshold_of_def)
  note t = sweep_rate_limit [OF a, where now = 10000000 and iv = 3600000 and h = "demo_host ''p2/m2''"]
  from t b e have g: "runRestoreCheck (demo_host ''p2/m2'') 10001000 3600000
        (fst (runRestoreCheck (demo_host ''p2/m2'') 10000000 3600000 (state_with demo_record)))
       = (fst (runRestoreCheck (demo_host ''p2/m2'') 10000000 3600000 (state_with demo_record)), [])"
    by blast
  from t b obtain es where f: "fst (runRestoreCheck (demo_host ''p2/m2'') 10000000 3600000 (state_with demo_record))
       = (state_with demo_record)\<lparr>stateData := Some (?sd1\<lparr>sessions := es\<rparr>)\<rparr>"
    by blast
  from b e f g show ?thesis by simp
qed

lemma restore_record_on_original:
  assumes "exhaustedAt r = Some e" "e \<noteq> 0" "\<not> now - e < thr"
    "record_original cfg r = Some orig" "record_fallback cfg r \<noteq> None"
    "fst (getSessionModel h sid) = Some m" "modelsEqual (Some m) (Some orig)"
  shows "restore_record h cfg now thr sid r = (r\<lparr>restoredAt := Some now\<rparr>, [SessionGet sid])"
proof -
  obtain t where g: "getSessionModel h sid = (Some m, t)"
    using assms(6) by (cases "getSessionModel h sid") auto
  with getSessionModel_trace [of h sid] have t: "t = [SessionGet sid]" by simp
  show ?thesis
    unfolding restore_record_def using assms g t by (simp add: Let_def)
qed

lemma restore_record_update_sid:
  "SessionUpdate sid' m \<in> set (snd (restore_record h cfg now thr sid r)) \<Longrightarrow> sid' = sid"
proof -
  obtain sm t1 where g: "getSessionModel h sid = (sm, t1)" by (cases "getSessionModel h sid")
  with getSessionModel_trace [of h sid] have t: "t1 = [SessionGet sid]" by simp
  obtain u t2 where s: "setSessionModel h sid (record_original cfg r) = (u, t2)"
    by (cases "setSessionModel h sid (record_original cfg r)")
  have t2: "\<forall>c \<in> set t2. \<exists>m'. c = SessionUpdate sid m'"
    using s by (auto simp: setSessionModel_def split: option.splits response.splits)
  assume "SessionUpdate sid' m \<in> set (snd (restore_record h cfg now thr sid r))"
  then show ?thesis
    unfolding restore_record_def using g t s t2
    by (auto simp: Let_def safeLog_def split: if_splits response.splits)
qed

text \<open>
  C8, as amended. In a sweep that proceeds, for a record whose exhaustion time is not 0
  and at least one interval old, whose original and fallback model both parse, and whose
  session is on the parsed original model: the record becomes itself with
  \<open>restoredAt\<close> set to the time of the sweep, no other field changed, and the sweep
  makes no model-update call for that session.
\<close>

theorem already_on_original_marks_restored:
  assumes "config st = Some cfg" "restore_enabled cfg" "stateData st = Some sd"
    "\<not> now - lastCheckAt sd < threshold_of iv"
    "distinct (map fst (sessions sd))" "i < length (sessions sd)" "sessions sd ! i = (sid, r)"
    "exhaustedAt r = Some e" "e \<noteq> 0" "\<not> now - e < threshold_of iv"
    "record_original cfg r = Some orig" "record_fallback cfg r \<noteq> None"
    "fst (getSessionModel h sid) = Some m" "modelsEqual (Some m) (Some orig)"
  shows "\<exists>sd'. stateData (fst (runRestoreCheck h now iv st)) = Some sd'
           \<and> sessions sd' ! i = (sid, r\<lparr>restoredAt := Some now\<rparr>)
           \<and> (\<forall>m'. SessionUpdate sid m' \<notin> set (snd (runRestoreCheck h now iv st)))"
proof -
  let ?thr = "threshold_of iv"
  let ?es = "fst (restore_loop h cfg now ?thr (sessions sd))"
  let ?sd' = "sd\<lparr>lastCheckAt := now, sessions := ?es\<rparr>"
  have run: "runRestoreCheck h now iv st
         = (st\<lparr>stateData := Some ?sd'\<rparr>,
            snd (restore_loop h cfg now ?thr (sessions sd)) @ saveState h (statePath st) ?sd')"
    using assms(1-4) by (rule runRestoreCheck_proceeds)
  have one: "restore_record h cfg now ?thr sid r = (r\<lparr>restoredAt := Some now\<rparr>, [SessionGet sid])"
    using assms(8-14) by (rule restore_record_on_original)
  have nth: "?es ! i = (sid, r\<lparr>restoredAt := Some now\<rparr>)"
    using restore_loop_nth [OF assms(6), where h = h and cfg = cfg and now = now and thr = ?thr]
      assms(7) one by simp
  have no_update: "SessionUpdate sid m' \<notin> set (snd (runRestoreCheck h now iv st))" for m'
  proof
    assume "SessionUpdate sid m' \<in> set (snd (runRestoreCheck h now iv st))"
    with run have "SessionUpdate sid m' \<in> set (snd (restore_loop h cfg now ?thr (sessions sd)))"
      by (auto simp: saveState_def safeLog_def split: option.splits if_splits response.splits)
    then obtain e where e: "e \<in> set (sessions sd)"
      and c: "SessionUpdate sid m' \<in> set (snd (restore_record h cfg now ?thr (fst e) (snd e)))"
      using restore_loop_trace by blast
    from restore_record_update_sid [OF c] have k: "fst e = sid" by simp
    have "(sid, r) \<in> set (sessions sd)"
      using assms(6,7) nth_mem by fastforce
    with e k assms(5) have "e = (sid, r)"
      by (metis eq_key_imp_eq_value prod.collapse)
    with c one show False by simp
  qed
  from run nth no_update show ?thesis by simp
qed

theorem already_on_original_marks_restored_witness:
  "map_option (\<lambda>sd. sessions sd ! 0)
     (stateData (fst (runRestoreCheck (demo_host ''p1/m1'') 10000000 3600000 (state_with demo_record))))
     = Some (''s1'', demo_record\<lparr>restoredAt := Some 10000000\<rparr>)
   \<and> SessionUpdate ''s1'' \<lparr>providerId = JStr ''p1'', modelId = JStr ''m1''\<rparr>
       \<notin> set (snd (runRestoreCheck (demo_host ''p1/m1'') 10000000 3600000 (state_with demo_record)))"
proof -
  let ?sd = "\<lparr>sessions = [(''s1'', demo_record)], lastCheckAt = 0\<rparr>"
  let ?m = "\<lparr>providerId = JStr ''p1'', modelId = JStr ''m1''\<rparr>"
  have a: "config (state_with demo_record) = Some demo_config"
    by (simp add: state_with_def demo_state_def)
  have b: "restore_enabled demo_config" by (simp add: demo_config_def)
  have c: "stateData (state_with demo_record) = Some ?sd" by (simp add: state_with_def)
  have d: "\<not> 10000000 - lastCheckAt ?sd < threshold_of 3600000" by (simp add: threshold_of_def)
  have e: "distinct (map fst (sessions ?sd))" by simp
  have f: "0 < length (sessions ?sd)" by simp
  have g: "sessions ?sd ! 0 = (''s1'', demo_record)" by simp
  have h: "exhaustedAt demo_record = Some 1000" by (simp add: demo_record_def)
  have i: "(1000 :: int) \<noteq> 0" by simp
  have j: "\<not> 10000000 - (1000 :: int) < threshold_of 3600000" by (simp add: threshold_of_def)
  have k: "record_original demo_config demo_record = Some ?m" by code_simp
  have l: "record_fallback demo_config demo_record \<noteq> None" by code_simp
  have m: "fst (getSessionModel (demo_host ''p1/m1'') ''s1'') = Some ?m" by code_simp
  have n: "modelsEqual (Some ?m) (Some ?m)" by (simp add: modelsEqual_def)
  from already_on_original_marks_restored [OF a b c d e f g h i j k l m n]
  show ?thesis by auto
qed

text \<open>
  C8 as stated fails on a record whose stored fallback model does not parse (the string
  qwen): the exhaustion is old enough and the session is on the parsed original model,
  yet the guard \<^verbatim>\<open>if (!originalModel || !fallbackModel) continue\<close> skips the record and
  \<open>restoredAt\<close> stays unset. It fails as well on a record whose exhaustion time is 0,
  which \<^verbatim>\<open>!exhaustedAt\<close> takes for absent.
\<close>

theorem unparseable_fallback_counterexample:
  "exhaustedAt (demo_record\<lparr>rec_fallbackModel := Some ''qwen''\<rparr>) = Some 1000
   \<and> \<not> 10000000 - (1000 :: int) < threshold_of 3600000
   \<and> record_original demo_config (demo_record\<lparr>rec_fallbackModel := Some ''qwen''\<rparr>)
       = Some \<lparr>providerId = JStr ''p1'', modelId = JStr ''m1''\<rparr>
   \<and> fst (getSessionModel (demo_host ''p1/m1'') ''s1'')
       = Some \<lparr>providerId = JStr ''p1'', modelId = JStr ''m1''\<rparr>
   \<and> map_option sessions
        (stateData (fst (runRestoreCheck (demo_host ''p1/m1'') 10000000 3600000
                           (state_with (demo_record\<lparr>rec_fallbackModel := Some ''qwen''\<rparr>)))))
       = Some [(''s1'', demo_record\<lparr>rec_fallbackModel := Some ''qwen''\<rparr>)]
   \<and> restoredAt (demo_record\<lparr>rec_fallbackModel := Some ''qwen''\<rparr>) = None
   \<and> map_option sessions
        (stateData (fst (runRestoreCheck (demo_host ''p1/m1'') 10000000 3600000
                           (state_with (demo_record\<lparr>exhaustedAt := Some 0\<rparr>)))))
       = Some [(''s1'', demo_record\<lparr>exhaustedAt := Some 0\<rparr>)]"
  by code_simp

lemma restore_record_episode:
  "same_episode r (fst (restore_record h cfg now thr sid r))"
proof -
  obtain sm t1 where g: "getSessionModel h sid = (sm, t1)" by (cases "getSessionModel h sid")
  obtain u t2 where s: "setSessionModel h sid (record_original cfg r) = (u, t2)"
    by (cases "setSessionModel h sid (record_original cfg r)")
  show ?thesis
    unfolding restore_record_def Let_def g s
    by (auto simp: same_episode_def)
qed

lemma restore_record_ignores_restoredAt:
  "snd (restore_record h cfg now thr sid (r\<lparr>restoredAt := x\<rparr>))
     = snd (restore_record h cfg now thr sid r)"
proof -
  obtain sm t1 where g: "getSessionModel h sid = (sm, t1)" by (cases "getSessionModel h sid")
  obtain u t2 where s: "setSessionModel h sid (record_original cfg r) = (u, t2)"
    by (cases "setSessionModel h sid (record_original cfg r)")
  have o: "record_original cfg (r\<lparr>restoredAt := x\<rparr>) = record_original cfg r"
    "record_fallback cfg (r\<lparr>restoredAt := x\<rparr>) = record_fallback cfg r"
    by (simp_all add: record_original_def record_fallback_def)
  show ?thesis
    unfolding restore_record_def Let_def o g s
    by simp
qed

lemma retry_writes_record:
  assumes "stateData st = Some sd"
  shows "stateData (fst (snd (retry_with_fallback h now cfg st sid primary fb sm msg)))
         = Some (sd\<lparr>sessions := AList.update sid (new_record now (sessionModel_or sm primary) fb)
                                  (sessions sd)\<rparr>)"
  using assms
  by (cases "session_prompt h sid") (simp_all add: retry_with_fallback_def Let_def)

lemma attempt_writes_record:
  assumes "stateData st = Some sd" "fallback_attempt h now cfg st sid = (out, st', t)"
    "offered out" "out \<noteq> Declined"
  shows "\<exists>orig fb. stateData st'
           = Some (sd\<lparr>sessions := AList.update sid (new_record now orig fb) (sessions sd)\<rparr>)"
proof -
  obtain r1 t1 where p: "hasRequiredProviders h cfg = (r1, t1)"
    by (cases "hasRequiredProviders h cfg")
  obtain sm t2 where g: "getSessionModel h sid = (sm, t2)"
    by (cases "getSessionModel h sid")
  obtain msg t3 where m: "getLastUserMessage h sid = (msg, t3)"
    by (cases "getLastUserMessage h sid")
  obtain ok t4 where c: "confirmFallback h cfg sid = (ok, t4)"
    by (cases "confirmFallback h cfg sid")
  have n5: "\<not> offered (Threw e)" if "r1 = Inl e" for e
    using hasRequiredProviders_error [of h cfg e t1] p that by auto
  obtain out5 st5 t5 where r: "retry_with_fallback h now cfg st sid (parseModel (primaryModel cfg))
      (the (parseModel (fallbackModel cfg))) sm (the msg) = (out5, st5, t5)"
    by (metis prod_cases3)
  have w: "stateData st5 = Some (sd\<lparr>sessions := AList.update sid
              (new_record now (sessionModel_or sm (parseModel (primaryModel cfg)))
                 (the (parseModel (fallbackModel cfg)))) (sessions sd)\<rparr>)"
    using retry_writes_record [OF assms(1), where h = h and now = now and cfg = cfg and sid = sid
      and primary = "parseModel (primaryModel cfg)" and fb = "the (parseModel (fallbackModel cfg))"
      and sm = sm and msg = "the msg"] r
    by simp
  show ?thesis
    using assms(2-4) n5 r w
    unfolding fallback_attempt_def p g m c
    by (cases r1; cases "parseModel (fallbackModel cfg)"; cases msg)
       (auto simp: Let_def split: if_splits)
qed

lemma handler_writes_record:
  assumes "stateData st = Some sd" "event_handler num h now ev st = (out, st', t)"
    "offered out" "out \<noteq> Declined" "extractSessionId ev = Some sid"
  shows "\<exists>r'. map_option (\<lambda>sd'. map_of (sessions sd') sid) (stateData st') = Some (Some r')
          \<and> exhaustedAt r' = Some now \<and> lastFallbackAt r' = Some now
          \<and> restoredAt r' = None \<and> lastRestoreAttemptAt r' = None"
proof -
  from handler_guard [where num = num and st = st and h = h and now = now and ev = ev] assms(2,3)
  obtain cfg where "event_handler num h now ev st = fallback_attempt h now cfg st sid"
    using assms(5) by (auto simp: quiet_def)
  with assms(2) have "fallback_attempt h now cfg st sid = (out, st', t)" by simp
  from attempt_writes_record [OF assms(1) this assms(3,4)]
  show ?thesis
    by (auto simp: update_conv' new_record_def)
qed

text \<open>
  C4, as amended. A record with \<open>restoredAt\<close> set stays in the store at its place under
  every later sweep, with \<open>restoredAt\<close> still set and with \<open>exhaustedAt\<close>,
  \<open>lastFallbackAt\<close>, \<open>originalModel\<close> and \<open>fallbackModel\<close> unchanged. The sweep does
  not read \<open>restoredAt\<close>: the calls it makes for a record are the same whatever that
  field holds. A new fallback for the session replaces the record by a fresh one with
  \<open>restoredAt\<close> and \<open>lastRestoreAttemptAt\<close> unset.
\<close>

theorem restored_record_same_episode:
  assumes "stateData st = Some sd" "i < length (sessions sd)" "sessions sd ! i = (sid, r)"
    "restoredAt r \<noteq> None"
  shows "(\<exists>sd' r'. stateData (fst (runRestoreCheck h now iv st)) = Some sd'
            \<and> sessions sd' ! i = (sid, r') \<and> same_episode r r' \<and> restoredAt r' \<noteq> None)
       \<and> (\<forall>cfg thr x. snd (restore_record h cfg now thr sid (r\<lparr>restoredAt := x\<rparr>))
                        = snd (restore_record h cfg now thr sid r))
       \<and> (\<forall>h' now' ev out st' t.
            event_handler num h' now' ev st = (out, st', t) \<and> offered out \<and> out \<noteq> Declined
            \<and> extractSessionId ev = Some sid
            \<longrightarrow> (\<exists>r'. map_option (\<lambda>sd'. map_of (sessions sd') sid) (stateData st') = Some (Some r')
                    \<and> exhaustedAt r' = Some now' \<and> lastFallbackAt r' = Some now'
                    \<and> restoredAt r' = None \<and> lastRestoreAttemptAt r' = None))"
proof (intro conjI allI impI)
  show "\<exists>sd' r'. stateData (fst (runRestoreCheck h now iv st)) = Some sd'
            \<and> sessions sd' ! i = (sid, r') \<and> same_episode r r' \<and> restoredAt r' \<noteq> None"
  proof (cases "\<exists>cfg. config st = Some cfg \<and> restore_enabled cfg
                  \<and> \<not> now - lastCheckAt sd < threshold_of iv")
    case True
    then obtain cfg where c: "config st = Some cfg" "restore_enabled cfg"
      "\<not> now - lastCheckAt sd < threshold_of iv" by blast
    let ?r' = "fst (restore_record h cfg now (threshold_of iv) sid r)"
    have e: "same_episode r ?r'" by (rule restore_record_episode)
    have n: "fst (restore_loop h cfg now (threshold_of iv) (sessions sd)) ! i = (sid, ?r')"
      using restore_loop_nth [OF assms(2), where h = h and cfg = cfg and now = now
        and thr = "threshold_of iv"] assms(3) by simp
    from e assms(4) have "restoredAt ?r' \<noteq> None" by (simp add: same_episode_def)
    with runRestoreCheck_proceeds [OF c(1,2) assms(1) c(3), where h = h] e n
    show ?thesis by simp
  next
    case False
    with assms(1) have "runRestoreCheck h now iv st = (st, [])"
      by (auto simp: runRestoreCheck_def sweep_begin_def Let_def split: option.splits)
    with assms show ?thesis by (simp add: same_episode_def)
  qed
next
  fix cfg thr x
  show "snd (restore_record h cfg now thr sid (r\<lparr>restoredAt := x\<rparr>))
          = snd (restore_record h cfg now thr sid r)"
    by (rule restore_record_ignores_restoredAt)
next
  fix h' now' ev out st' t
  assume a: "event_handler num h' now' ev st = (out, st', t) \<and> offered out \<and> out \<noteq> Declined
            \<and> extractSessionId ev = Some sid"
  then show "\<exists>r'. map_option (\<lambda>sd'. map_of (sessions sd') sid) (stateData st') = Some (Some r')
                    \<and> exhaustedAt r' = Some now' \<and> lastFallbackAt r' = Some now'
                    \<and> restoredAt r' = None \<and> lastRestoreAttemptAt r' = None"
    using handler_writes_record [OF assms(1), where h = h' and now = now' and ev = ev and out = out
      and st' = st' and t = t and sid = sid]
    by blast
qed

theorem restored_record_same_episode_witness:
  "restoredAt (demo_record\<lparr>restoredAt := Some 2000\<rparr>) \<noteq> None
   \<and> (\<exists>sd' r'. stateData (fst (runRestoreCheck (demo_host ''p1/m1'') 10000000 3600000
                                  (state_with (demo_record\<lparr>restoredAt := Some 2000\<rparr>)))) = Some sd'
        \<and> sessions sd' ! 0 = (''s1'', r')
        \<and> same_episode (demo_record\<lparr>restoredAt := Some 2000\<rparr>) r' \<and> restoredAt r' \<noteq> None)"
proof -
  let ?r = "demo_record\<lparr>restoredAt := Some 2000\<rparr>"
  let ?sd = "\<lparr>sessions = [(''s1'', ?r)], lastCheckAt = 0\<rparr>"
  have a: "stateData (state_with ?r) = Some ?sd" by (simp add: state_with_def)
  have b: "0 < length (sessions ?sd)" by simp
  have c: "sessions ?sd ! 0 = (''s1'', ?r)" by simp
  have d: "restoredAt ?r \<noteq> None" by simp
  from restored_record_same_episode [OF a b c d, where h = "demo_host ''p1/m1''"
    and now = 10000000 and iv = 3600000] d
  show ?thesis by blast
qed

text \<open>
  C4 as stated fails: the record is not inert. With the session back on the fallback
  model p2/m2, a later sweep calls the model update again and overwrites
  \<open>restoredAt\<close> and \<open>lastRestoreAttemptAt\<close>; with the session on the original model
  it overwrites \<open>restoredAt\<close>.
\<close>

theorem restored_record_not_inert_counterexample:
  "restoredAt (demo_record\<lparr>restoredAt := Some 2000\<rparr>) = Some 2000
   \<and> map_option sessions
        (stateData (fst (runRestoreCheck (demo_host ''p2/m2'') 10000000 3600000
                           (state_with (demo_record\<lparr>restoredAt := Some 2000\<rparr>)))))
       = Some [(''s1'', demo_record\<lparr>restoredAt := Some 10000000,
                                      lastRestoreAttemptAt := Some 10000000\<rparr>)]
   \<and> SessionUpdate ''s1'' \<lparr>providerId = JStr ''p1'', modelId = JStr ''m1''\<rparr>
       \<in> set (snd (runRestoreCheck (demo_host ''p2/m2'') 10000000 3600000
                      (state_with (demo_record\<lparr>restoredAt := Some 2000\<rparr>))))
   \<and> map_option sessions
        (stateData (fst (runRestoreCheck (demo_host ''p1/m1'') 10000000 3600000
                           (state_with (demo_record\<lparr>restoredAt := Some 2000\<rparr>)))))
       = Some [(''s1'', demo_record\<lparr>restoredAt := Some 10000000\<rparr>)]"
  by code_simp

end
